theory Spec2Isabelle
  imports Main "HOL-Library.Word"
begin

section \<open>Data model of proxy/server_udp.go\<close>

text \<open>
  The file under verification is the UDP transport of a DNS proxy: socket setup
  (\<^verbatim>\<open>createUDPListeners\<close>, \<^verbatim>\<open>udpCreate\<close>), the ingestion loop
  (\<^verbatim>\<open>udpPacketLoop\<close>), the packet handler (\<^verbatim>\<open>udpHandlePacket\<close>) and the
  responder (\<^verbatim>\<open>respondUDP\<close>).  Byte slices are lists of 8-bit words, Go's
  \<^verbatim>\<open>int\<close> is \<open>int\<close>, a Go \<^verbatim>\<open>error\<close> that may be \<^verbatim>\<open>nil\<close> is an
  \<open>error option\<close>, and every I/O effect is an entry of an event trace.
\<close>

type_synonym byte = "8 word"
type_synonym bytes = "byte list"
type_synonym ip = "byte list"

text \<open>\<^verbatim>\<open>*net.UDPAddr\<close> (IP and port) and \<^verbatim>\<open>*net.UDPConn\<close> (a socket descriptor).\<close>

type_synonym UDPAddr = "ip \<times> int"
type_synonym UDPConn = nat

text \<open>
  The interface-typed fields of the request context carry a dynamic type; the
  single-value type assertions of \<^verbatim>\<open>respondUDP\<close> succeed on exactly one of them.
\<close>

datatype conn_iface = Conn_nil | Conn_UDP UDPConn | Conn_other nat
datatype addr_iface = Addr_nil | Addr_UDP UDPAddr | Addr_other string

text \<open>
  Errors: a base error coming from the network stack or the DNS library,
  \<^verbatim>\<open>errorx.Decorate(err, format, args)\<close> and \<^verbatim>\<open>fmt.Errorf(format, args)\<close>.
\<close>

datatype error =
    NetError string
  | Decorate error string "string list"
  | Errorf string "int list"

datatype fault = NilDereference | TypeAssertion

text \<open>A call either panics or returns.\<close>

datatype 'a outcome = Panic fault | Return 'a

datatype event =
    EvLog string
  | EvOpen UDPConn
  | EvSetReadBuffer UDPConn int
  | EvSetOptions UDPConn
  | EvClose UDPConn
  | EvRead UDPConn
  | EvWrite UDPConn UDPAddr ip bytes
  | EvGo nat

datatype proto = ProtoUDP | ProtoTCP

record 'm DNSContext =
  Proto :: proto
  Req :: "'m option"
  Res :: "'m option"
  Addr :: addr_iface
  Conn :: conn_iface
  localIP :: ip

text \<open>
  The collaborators that live outside this file are parameters: the DNS library
  (\<^verbatim>\<open>dns.MaxMsgSize\<close>, \<^verbatim>\<open>Msg.Unpack\<close>, \<^verbatim>\<open>Msg.Pack\<close>, \<^verbatim>\<open>Msg.String\<close>), package
  \<^verbatim>\<open>proxyutil\<close> (\<^verbatim>\<open>IsConnClosed\<close>, \<^verbatim>\<open>UDPWrite\<close>, \<^verbatim>\<open>UDPSetOptions\<close>), the
  \<^verbatim>\<open>net\<close> package (\<^verbatim>\<open>ListenUDP\<close>, \<^verbatim>\<open>SetReadBuffer\<close>) and the resolver
  \<^verbatim>\<open>Proxy.handleDNSRequest\<close>.  Those that talk to the operating system see the
  trace so far, so their answer may depend on the history.
\<close>

record 'm env =
  MaxMsgSize :: nat
  IsConnClosed :: "error option \<Rightarrow> bool"
  Unpack :: "bytes \<Rightarrow> error + 'm"
  Pack :: "'m \<Rightarrow> error + bytes"
  MsgString :: "'m \<Rightarrow> string"
  handleDNSRequest :: "'m DNSContext \<Rightarrow> event list \<Rightarrow> error option \<times> event list"
  UDPWrite :: "event list \<Rightarrow> bytes \<Rightarrow> UDPConn \<Rightarrow> UDPAddr \<Rightarrow> ip \<Rightarrow> int \<times> error option"
  ListenUDP :: "event list \<Rightarrow> UDPAddr \<Rightarrow> error + UDPConn"
  SetReadBuffer :: "event list \<Rightarrow> UDPConn \<Rightarrow> int \<Rightarrow> error option"
  UDPSetOptions :: "event list \<Rightarrow> UDPConn \<Rightarrow> error option"

text \<open>The fields of \<^verbatim>\<open>Proxy\<close> this file touches; \<open>rlocks\<close> counts the read locks
  held on the embedded \<^verbatim>\<open>sync.RWMutex\<close>.\<close>

record Proxy =
  UDPListenAddr :: "UDPAddr list"
  UDPBufferSize :: int
  udpListen :: "UDPConn list"
  started :: bool
  rlocks :: nat

definition RLock :: "Proxy \<Rightarrow> Proxy" where
  "RLock p = p\<lparr>rlocks := Suc (rlocks p)\<rparr>"

definition RUnlock :: "Proxy \<Rightarrow> Proxy" where
  "RUnlock p = p\<lparr>rlocks := rlocks p - 1\<rparr>"

section \<open>Listener setup\<close>

text \<open>\<^verbatim>\<open>udpCreate\<close>, lines 27-50.  The result of \<^verbatim>\<open>Close\<close> is discarded, as in the source.\<close>

definition udpCreate ::
  "'m env \<Rightarrow> Proxy \<Rightarrow> UDPAddr \<Rightarrow> event list \<Rightarrow> (error + UDPConn) \<times> event list" where
  "udpCreate E p udpAddr tr0 =
     (let tr1 = tr0 @ [EvLog ''Creating the UDP server socket''] in
      case ListenUDP E tr1 udpAddr of
        Inl err \<Rightarrow> (Inl (Decorate err ''couldn't listen to UDP socket'' []), tr1)
      | Inr c \<Rightarrow>
          (let tr2 = tr1 @ [EvOpen c];
               sized = (if UDPBufferSize p > 0
                        then (SetReadBuffer E tr2 c (UDPBufferSize p),
                              tr2 @ [EvSetReadBuffer c (UDPBufferSize p)])
                        else (None, tr2))
           in case fst sized of
                Some err \<Rightarrow>
                  (Inl (Decorate err ''setting UDP buffer size failed'' []),
                   snd sized @ [EvClose c])
              | None \<Rightarrow>
                  (let tr3 = snd sized @ [EvSetOptions c] in
                   case UDPSetOptions E (snd sized) c of
                     Some err \<Rightarrow>
                       (Inl (Decorate err ''udpSetOptions failed'' []), tr3 @ [EvClose c])
                   | None \<Rightarrow> (Inr c, tr3 @ [EvLog ''Listening to udp://%s'']))))"

text \<open>\<^verbatim>\<open>createUDPListeners\<close>, lines 14-24: the loop over \<^verbatim>\<open>p.UDPListenAddr\<close>.\<close>

fun createUDPListeners_loop ::
  "'m env \<Rightarrow> UDPAddr list \<Rightarrow> Proxy \<Rightarrow> event list \<Rightarrow> error option \<times> Proxy \<times> event list" where
  "createUDPListeners_loop E [] p tr = (None, p, tr)"
| "createUDPListeners_loop E (a # as) p tr =
     (case udpCreate E p a tr of
        (Inl err, tr') \<Rightarrow> (Some err, p, tr')
      | (Inr c, tr') \<Rightarrow>
          createUDPListeners_loop E as (p\<lparr>udpListen := udpListen p @ [c]\<rparr>) tr')"

definition createUDPListeners ::
  "'m env \<Rightarrow> Proxy \<Rightarrow> event list \<Rightarrow> error option \<times> Proxy \<times> event list" where
  "createUDPListeners E p tr = createUDPListeners_loop E (UDPListenAddr p) p tr"

text \<open>The three decorations of \<^verbatim>\<open>udpCreate\<close>, one per step.\<close>

definition create_msgs :: "string list" where
  "create_msgs = [''couldn't listen to UDP socket'', ''setting UDP buffer size failed'',
                  ''udpSetOptions failed'']"

text \<open>The sockets a trace opened and the sockets it closed, in order.\<close>

fun opened :: "event list \<Rightarrow> UDPConn list" where
  "opened [] = []"
| "opened (EvOpen c # tr) = c # opened tr"
| "opened (_ # tr) = opened tr"

fun closed :: "event list \<Rightarrow> UDPConn list" where
  "closed [] = []"
| "closed (EvClose c # tr) = c # closed tr"
| "closed (_ # tr) = closed tr"

section \<open>Packet handler and responder\<close>

text \<open>\<^verbatim>\<open>udpHandlePacket\<close>, lines 90-112.  The function has no result; its effects
  are the events it appends.\<close>

definition udpHandlePacket ::
  "'m env \<Rightarrow> bytes \<Rightarrow> ip \<Rightarrow> UDPAddr \<Rightarrow> UDPConn \<Rightarrow> event list \<Rightarrow> event list" where
  "udpHandlePacket E packet lip remoteAddr conn tr =
     (let tr1 = tr @ [EvLog ''Start handling new UDP packet from %s''] in
      case Unpack E packet of
        Inl err \<Rightarrow> tr1 @ [EvLog ''error handling UDP packet: %s'']
      | Inr msg \<Rightarrow>
          (let d = \<lparr>Proto = ProtoUDP, Req = Some msg, Res = None,
                    Addr = Addr_UDP remoteAddr, Conn = Conn_UDP conn, localIP = lip\<rparr>;
               r = handleDNSRequest E d tr1
           in case fst r of
                Some err \<Rightarrow> snd r @ [EvLog ''error handling DNS (%s) request: %s'']
              | None \<Rightarrow> snd r))"

text \<open>\<^verbatim>\<open>respondUDP\<close>, lines 115-136.  \<^verbatim>\<open>resp.Pack()\<close> on a nil message dereferences
  the nil receiver; the two type assertions panic on any other dynamic type.\<close>

definition respondUDP ::
  "'m env \<Rightarrow> 'm DNSContext \<Rightarrow> event list \<Rightarrow> error option outcome \<times> event list" where
  "respondUDP E d tr =
     (case Res d of
        None \<Rightarrow> (Panic NilDereference, tr)
      | Some resp \<Rightarrow>
          (case Pack E resp of
             Inl err \<Rightarrow>
               (Return (Some (Decorate err ''couldn't convert message into wire format: %s''
                                [MsgString E resp])), tr)
           | Inr bs \<Rightarrow>
               (case Conn d of
                  Conn_UDP conn \<Rightarrow>
                    (case Addr d of
                       Addr_UDP rAddr \<Rightarrow>
                         (let w = UDPWrite E tr bs conn rAddr (localIP d);
                              n = fst w; err = snd w;
                              tr' = tr @ [EvWrite conn rAddr (localIP d) bs]
                          in if n = 0 \<and> IsConnClosed E err then (Return err, tr')
                             else case err of
                                    Some e \<Rightarrow>
                                      (Return (Some (Decorate e ''udpWrite() returned error'' [])),
                                       tr')
                                  | None \<Rightarrow>
                                      if n \<noteq> int (length bs)
                                      then (Return (Some (Errorf
                                              ''udpWrite() returned with %d != %d''
                                              [n, int (length bs)])), tr')
                                      else (Return None, tr'))
                     | _ \<Rightarrow> (Panic TypeAssertion, tr))
                | _ \<Rightarrow> (Panic TypeAssertion, tr))))"

section \<open>The concurrency gate\<close>

text \<open>
  Modelled from the spec: the declaration of type \<^verbatim>\<open>semaphore\<close> and its methods
  \<^verbatim>\<open>acquire\<close> and \<^verbatim>\<open>release\<close> are not in this file.  The spec describes a
  bounded counter of in-flight slots: \<^verbatim>\<open>acquire\<close> takes a slot and suspends the
  caller while the gate is saturated, \<^verbatim>\<open>release\<close> gives one slot back.  \<open>None\<close>
  is the suspended caller.
\<close>

record semaphore =
  inflight :: nat
  maxCount :: nat

definition acquire :: "semaphore \<Rightarrow> semaphore option" where
  "acquire sm = (if inflight sm < maxCount sm
                 then Some (sm\<lparr>inflight := Suc (inflight sm)\<rparr>) else None)"

definition release :: "semaphore \<Rightarrow> semaphore option" where
  "release sm = (if 0 < inflight sm
                 then Some (sm\<lparr>inflight := inflight sm - 1\<rparr>) else None)"

section \<open>The ingestion loop\<close>

text \<open>Go's \<^verbatim>\<open>make([]byte, n)\<close> and \<^verbatim>\<open>copy(dst, src)\<close>: the latter overwrites the
  first \<open>min (length dst) (length src)\<close> elements of \<open>dst\<close>.\<close>

definition go_make :: "nat \<Rightarrow> bytes" where
  "go_make n = replicate n 0"

definition go_copy :: "bytes \<Rightarrow> bytes \<Rightarrow> bytes" where
  "go_copy dst src = take (length dst) src @ drop (length src) dst"

text \<open>
  What one call of \<^verbatim>\<open>proxyutil.UDPRead(conn, b, p.udpOOBSize)\<close> yields: the count
  it returns, the bytes it stored at the front of \<^verbatim>\<open>b\<close>, the local and the peer
  address, and the error.
\<close>

record read_result =
  rd_n :: int
  rd_data :: bytes
  rd_localIP :: ip
  rd_remoteAddr :: UDPAddr
  rd_err :: "error option"

text \<open>
  \<^verbatim>\<open>udpPacketLoop\<close>, lines 55-87, runs concurrently with the goroutines it
  launches, so it is a transition system.  The loop's control points are the top
  of the \<^verbatim>\<open>for\<close> (line 59), the read (line 65), the gate (line 72, holding the
  address of the copied packet, both addresses and the pending read error), the
  error check (line 78), and the exit.
\<close>

datatype loop_point =
    AtCheck
  | AtRead
  | AtAcquire nat ip UDPAddr "error option"
  | AtErr "error option"
  | Exited

text \<open>A launched goroutine (lines 73-76) first handles its packet, then releases.\<close>

datatype task_point = Handling | Releasing

record task =
  t_packet :: nat
  t_localIP :: ip
  t_remoteAddr :: UDPAddr
  t_conn :: UDPConn
  t_point :: task_point

text \<open>The goroutine launched at line 73 for the packet at address \<open>a\<close>.\<close>

definition handler_of :: "nat \<Rightarrow> ip \<Rightarrow> UDPAddr \<Rightarrow> UDPConn \<Rightarrow> task" where
  "handler_of a lip ra c =
     \<lparr>t_packet = a, t_localIP = lip, t_remoteAddr = ra, t_conn = c, t_point = Handling\<rparr>"

text \<open>
  Byte slices live in a store addressed by index, so that sharing is visible:
  \<open>loop_b\<close> is the address of the loop's buffer \<^verbatim>\<open>b\<close>, a task holds the address
  of its packet.  \<open>ltrace\<close> collects the effects of the loop goroutine itself
  (\<open>EvGo a\<close> is the \<^verbatim>\<open>go\<close> statement launching the handler of the packet at
  address \<open>a\<close>), \<open>ttrace\<close> those of the handler goroutines.
\<close>

record state =
  proxy :: Proxy
  loop_conn :: UDPConn
  sema :: semaphore
  loop_pc :: loop_point
  loop_b :: nat
  heap :: "bytes list"
  tasks :: "task list"
  ltrace :: "event list"
  ttrace :: "event list"

text \<open>The state on entry to the loop, after lines 56-57.\<close>

definition udpPacketLoop_init :: "'m env \<Rightarrow> Proxy \<Rightarrow> UDPConn \<Rightarrow> semaphore \<Rightarrow> state" where
  "udpPacketLoop_init E p conn sm =
     \<lparr>proxy = p, loop_conn = conn, sema = sm, loop_pc = AtCheck, loop_b = 0,
      heap = [go_make (MaxMsgSize E)], tasks = [],
      ltrace = [EvLog ''Entering the UDP listener loop on %s''], ttrace = []\<rparr>"

text \<open>One step of the loop goroutine; \<open>rd\<close> is what the read returns if this step
  is the read.\<close>

definition udpPacketLoop_step :: "'m env \<Rightarrow> read_result \<Rightarrow> state \<Rightarrow> state" where
  "udpPacketLoop_step E rd s =
     (case loop_pc s of
        AtCheck \<Rightarrow>
          (let p1 = RLock (proxy s) in
           if \<not> started p1 then s\<lparr>proxy := p1, loop_pc := Exited\<rparr>
           else s\<lparr>proxy := RUnlock p1, loop_pc := AtRead\<rparr>)
      | AtRead \<Rightarrow>
          (let hp = (heap s)[loop_b s := go_copy (heap s ! loop_b s) (rd_data rd)];
               tr = ltrace s @ [EvRead (loop_conn s)]
           in if rd_n rd > 0
              then s\<lparr>heap := hp @ [go_copy (go_make (nat (rd_n rd))) (hp ! loop_b s)],
                     ltrace := tr,
                     loop_pc := AtAcquire (length hp) (rd_localIP rd) (rd_remoteAddr rd)
                                  (rd_err rd)\<rparr>
              else s\<lparr>heap := hp, ltrace := tr, loop_pc := AtErr (rd_err rd)\<rparr>)
      | AtAcquire a lip ra err \<Rightarrow>
          (case acquire (sema s) of
             None \<Rightarrow> s
           | Some sm \<Rightarrow>
               s\<lparr>sema := sm,
                 tasks := tasks s @ [\<lparr>t_packet = a, t_localIP = lip, t_remoteAddr = ra,
                                      t_conn = loop_conn s, t_point = Handling\<rparr>],
                 ltrace := ltrace s @ [EvGo a],
                 loop_pc := AtErr err\<rparr>)
      | AtErr err \<Rightarrow>
          (case err of
             None \<Rightarrow> s\<lparr>loop_pc := AtCheck\<rparr>
           | Some e \<Rightarrow>
               s\<lparr>ltrace := ltrace s @
                    [EvLog (if IsConnClosed E err
                            then ''udpListen.ReadFrom() returned because we're reading from a closed connection, exiting loop''
                            else ''got error when reading from UDP listen: %s'')],
                 loop_pc := Exited\<rparr>)
      | Exited \<Rightarrow> s)"

text \<open>One step of the \<open>i\<close>-th running goroutine.\<close>

definition task_step :: "'m env \<Rightarrow> nat \<Rightarrow> state \<Rightarrow> state" where
  "task_step E i s =
     (if i < length (tasks s)
      then (let t = tasks s ! i in
            case t_point t of
              Handling \<Rightarrow>
                s\<lparr>ttrace := udpHandlePacket E (heap s ! t_packet t) (t_localIP t)
                               (t_remoteAddr t) (t_conn t) (ttrace s),
                  tasks := (tasks s)[i := t\<lparr>t_point := Releasing\<rparr>]\<rparr>
            | Releasing \<Rightarrow>
                (case release (sema s) of
                   None \<Rightarrow> s
                 | Some sm \<Rightarrow>
                     s\<lparr>sema := sm, tasks := take i (tasks s) @ drop (Suc i) (tasks s)\<rparr>))
      else s)"

text \<open>
  Modelled from the spec: shutdown is not in this file.  The spec has the
  running flag written once, to false, under the exclusive lock, which cannot be
  taken while a read lock is held.
\<close>

definition shutdown_step :: "state \<Rightarrow> state" where
  "shutdown_step s =
     (if rlocks (proxy s) = 0 then s\<lparr>proxy := (proxy s)\<lparr>started := False\<rparr>\<rparr> else s)"

datatype action = Loop read_result | Task nat | Shutdown

fun step :: "'m env \<Rightarrow> action \<Rightarrow> state \<Rightarrow> state" where
  "step E (Loop rd) s = udpPacketLoop_step E rd s"
| "step E (Task i) s = task_step E i s"
| "step E Shutdown s = shutdown_step s"

fun run :: "'m env \<Rightarrow> action list \<Rightarrow> state \<Rightarrow> state" where
  "run E [] s = s"
| "run E (a # as) s = run E as (step E a s)"

fun reads :: "event list \<Rightarrow> nat" where
  "reads [] = 0"
| "reads (EvRead c # tr) = Suc (reads tr)"
| "reads (_ # tr) = reads tr"

fun writes :: "event list \<Rightarrow> nat" where
  "writes [] = 0"
| "writes (EvWrite c a l bs # tr) = Suc (writes tr)"
| "writes (_ # tr) = writes tr"

section \<open>Invariants of the transition system\<close>

text \<open>The gate: \<open>k\<close> slots were taken when the loop started, every running
  goroutine of this loop holds one more, and the bound \<open>m\<close> is respected.\<close>

definition gate_inv :: "nat \<Rightarrow> nat \<Rightarrow> state \<Rightarrow> bool" where
  "gate_inv k m s =
     (maxCount (sema s) = m \<and> inflight (sema s) = k + length (tasks s) \<and>
      inflight (sema s) \<le> m)"

text \<open>The store: the loop's buffer exists and has \<open>m\<close> bytes, and neither a
  running goroutine nor the packet waiting at the gate is that buffer.\<close>

definition heap_inv :: "nat \<Rightarrow> state \<Rightarrow> bool" where
  "heap_inv m s =
     (loop_b s < length (heap s) \<and> length (heap s ! loop_b s) = m \<and>
      (\<forall>t \<in> set (tasks s). t_packet t \<noteq> loop_b s \<and> t_packet t < length (heap s)) \<and>
      (case loop_pc s of
         AtAcquire a lip ra err \<Rightarrow> a \<noteq> loop_b s \<and> a < length (heap s)
       | _ \<Rightarrow> True))"

text \<open>A buffer other than the loop's that holds \<open>v\<close>.\<close>

definition keeps :: "nat \<Rightarrow> bytes \<Rightarrow> state \<Rightarrow> bool" where
  "keeps a v s = (a < length (heap s) \<and> a \<noteq> loop_b s \<and> heap s ! a = v)"

text \<open>Where the loop can be after a read that returned a packet, at address
  \<open>a\<close>, together with the error \<open>e\<close>, having left the state \<open>s1\<close>: still at
  the gate, or past the \<^verbatim>\<open>go\<close> statement and at the error check, or past both
  and out of the loop.\<close>

definition received_dispatched :: "'m env \<Rightarrow> state \<Rightarrow> nat \<Rightarrow> error \<Rightarrow> state \<Rightarrow> bool" where
  "received_dispatched E s1 a e s2 =
     (loop_pc s2 = loop_pc s1 \<and> ltrace s2 = ltrace s1 \<or>
      loop_pc s2 = AtErr (Some e) \<and> ltrace s2 = ltrace s1 @ [EvGo a] \<or>
      loop_pc s2 = Exited \<and>
        ltrace s2 = ltrace s1 @
          [EvGo a,
           EvLog (if IsConnClosed E (Some e)
                  then ''udpListen.ReadFrom() returned because we're reading from a closed connection, exiting loop''
                  else ''got error when reading from UDP listen: %s'')])"

text \<open>The flag is down, the loop is not between its check and its read, and \<open>r\<close>
  reads have been issued.\<close>

definition stopped :: "nat \<Rightarrow> state \<Rightarrow> bool" where
  "stopped r s = (\<not> started (proxy s) \<and> loop_pc s \<noteq> AtRead \<and> reads (ltrace s) = r)"

text \<open>The flag is down and at most one read has been issued beyond the first \<open>r\<close>:
  none yet if the loop is between its check and its read.\<close>

definition late :: "nat \<Rightarrow> state \<Rightarrow> bool" where
  "late r s =
     (\<not> started (proxy s) \<and>
      (if loop_pc s = AtRead then reads (ltrace s) = r else reads (ltrace s) \<le> Suc r))"

text \<open>Observers used in the statements below.\<close>

definition is_udp_conn :: "conn_iface \<Rightarrow> bool" where
  "is_udp_conn c = (case c of Conn_UDP x \<Rightarrow> True | _ \<Rightarrow> False)"

definition is_udp_addr :: "addr_iface \<Rightarrow> bool" where
  "is_udp_addr a = (case a of Addr_UDP x \<Rightarrow> True | _ \<Rightarrow> False)"

definition faults :: "'a outcome \<Rightarrow> bool" where
  "faults r = (case r of Panic f \<Rightarrow> True | Return x \<Rightarrow> False)"

section \<open>Concrete inputs\<close>

text \<open>A small environment over messages that are their own wire format: a
  message shorter than two bytes does not decode, one longer than four does not
  encode, and the resolver echoes the request to the peer.\<close>

definition closedErr :: error where
  "closedErr = NetError ''use of closed network connection''"

definition env0 :: "bytes env" where
  "env0 = \<lparr>MaxMsgSize = 4,
           IsConnClosed = (\<lambda>e. e = Some closedErr),
           Unpack = (\<lambda>bs. if length bs < 2 then Inl (NetError ''short'') else Inr bs),
           Pack = (\<lambda>m. if length m > 4 then Inl (NetError ''oversize'') else Inr m),
           MsgString = (\<lambda>m. ''msg''),
           handleDNSRequest =
             (\<lambda>d tr. (None, tr @ (case (Req d, Conn d, Addr d) of
                                       (Some m, Conn_UDP c, Addr_UDP a) \<Rightarrow>
                                         [EvWrite c a (localIP d) m]
                                     | _ \<Rightarrow> []))),
           UDPWrite = (\<lambda>tr bs c a l. (int (length bs), None)),
           ListenUDP = (\<lambda>tr a. Inr (length (opened tr))),
           SetReadBuffer = (\<lambda>tr c n. None),
           UDPSetOptions = (\<lambda>tr c. None)\<rparr>"

definition ctx0 :: "bytes DNSContext" where
  "ctx0 = \<lparr>Proto = ProtoUDP, Req = Some [1, 2], Res = Some [1, 2, 3],
           Addr = Addr_UDP ([127, 0, 0, 1], 5353), Conn = Conn_UDP 0,
           localIP = [127, 0, 0, 1]\<rparr>"

definition proxy0 :: Proxy where
  "proxy0 = \<lparr>UDPListenAddr = [([127, 0, 0, 1], 53), ([127, 0, 0, 2], 53)], UDPBufferSize = 0,
             udpListen = [], started = True, rlocks = 0\<rparr>"

definition sema0 :: semaphore where
  "sema0 = \<lparr>inflight = 0, maxCount = 1\<rparr>"

definition rd0 :: read_result where
  "rd0 = \<lparr>rd_n = 2, rd_data = [7, 9], rd_localIP = [127, 0, 0, 1],
          rd_remoteAddr = ([10, 0, 0, 1], 4000), rd_err = None\<rparr>"

definition rd1 :: read_result where
  "rd1 = \<lparr>rd_n = 3, rd_data = [1, 1, 1], rd_localIP = [127, 0, 0, 1],
          rd_remoteAddr = ([10, 0, 0, 2], 4001), rd_err = Some closedErr\<rparr>"

definition state0 :: state where
  "state0 = udpPacketLoop_init env0 proxy0 0 sema0"



definition stateF :: state where
  "stateF = udpPacketLoop_init env0 (proxy0\<lparr>started := False\<rparr>) 0 sema0"

text \<open>Environments in which one setup step fails.\<close>

definition envF :: "bytes env" where
  "envF = env0\<lparr>UDPSetOptions := (\<lambda>tr c. if c = 1 then Some (NetError ''EPERM'') else None)\<rparr>"

definition envB :: "bytes env" where
  "envB = env0\<lparr>SetReadBuffer := (\<lambda>tr c n. Some (NetError ''ENOBUFS''))\<rparr>"

definition envL :: "bytes env" where
  "envL = env0\<lparr>ListenUDP := (\<lambda>tr a. Inl (NetError ''EADDRINUSE''))\<rparr>"

text \<open>A state at the read with the gate saturated.\<close>

definition satState :: state where
  "satState = run env0 [Loop rd0, Loop rd0, Loop rd0, Loop rd0, Loop rd0] state0"

section \<open>Auxiliary facts\<close>

lemma opened_append: "opened (xs @ ys) = opened xs @ opened ys"
  by (induction xs rule: opened.induct) simp_all

lemma closed_append: "closed (xs @ ys) = closed xs @ closed ys"
  by (induction xs rule: closed.induct) simp_all

lemma reads_append: "reads (xs @ ys) = reads xs + reads ys"
  by (induction xs rule: reads.induct) simp_all

lemma writes_append: "writes (xs @ ys) = writes xs + writes ys"
  by (induction xs rule: writes.induct) simp_all

lemma length_go_copy: "length (go_copy dst src) = length dst"
  by (simp add: go_copy_def)

lemma go_copy_make: "n \<le> length src \<Longrightarrow> go_copy (go_make n) src = take n src"
  by (simp add: go_copy_def go_make_def)

lemma set_remove_nth: "set (take i xs @ drop (Suc i) xs) \<subseteq> set xs"
  by (auto dest: in_set_takeD in_set_dropD)

text \<open>A property every step preserves holds along every schedule.\<close>

lemma run_invariant:
  assumes "\<And>s a. P s \<Longrightarrow> P (step E a s)" and "P s"
  shows "P (run E as s)"
  using assms(2) by (induction as arbitrary: s) (simp_all add: assms(1))

lemma run_append: "run E (as @ bs) s = run E bs (run E as s)"
  by (induction as arbitrary: s) simp_all

lemma run_snoc: "run E (as @ [x]) s = step E x (run E as s)"
  by (simp add: run_append)

section \<open>Listener setup\<close>

text \<open>What a call of \<^verbatim>\<open>udpCreate\<close> leaves behind: on failure a decorated error and every
  socket it opened closed again; on success one open socket.\<close>

lemma udpCreate_err:
  assumes "udpCreate E p a tr = (Inl e, tr')"
  shows "\<exists>err msg new. e = Decorate err msg [] \<and> msg \<in> set create_msgs \<and>
           tr' = tr @ new \<and> opened new = closed new \<and> length (closed new) \<le> 1"
  using assms
  by (auto simp: udpCreate_def Let_def create_msgs_def
      split: sum.splits option.splits if_splits)

lemma udpCreate_ok:
  assumes "udpCreate E p a tr = (Inr c, tr')"
  shows "\<exists>new. tr' = tr @ new \<and> opened new = [c] \<and> closed new = []"
  using assms
  by (auto simp: udpCreate_def Let_def split: sum.splits option.splits if_splits)

lemma createUDPListeners_loop_post:
  assumes "createUDPListeners_loop E as p tr = (res, p', tr')"
  shows "\<exists>cs new. udpListen p' = udpListen p @ cs \<and> tr' = tr @ new \<and>
           opened new = cs @ closed new \<and> length (closed new) \<le> 1 \<and>
           (res = None \<longrightarrow> closed new = [] \<and> length cs = length as) \<and>
           (\<forall>e. res = Some e \<longrightarrow> length cs < length as \<and>
                 (\<exists>err msg. e = Decorate err msg [] \<and> msg \<in> set create_msgs) \<and>
                 (\<exists>trk. udpCreate E p' (as ! length cs) trk = (Inl e, tr')))"
  using assms
proof (induction as arbitrary: p tr)
  case Nil
  then show ?case by simp
next
  case (Cons a as)
  obtain r tr1 where u: "udpCreate E p a tr = (r, tr1)"
    by (cases "udpCreate E p a tr")
  show ?case
  proof (cases r)
    case (Inl e)
    with u Cons.prems have eq: "res = Some e" "p' = p" "tr' = tr1" by simp_all
    from udpCreate_err [OF u [unfolded Inl]] obtain err msg new where
      n: "e = Decorate err msg []" "msg \<in> set create_msgs" "tr1 = tr @ new"
        "opened new = closed new" "length (closed new) \<le> 1"
      by blast
    have "udpListen p' = udpListen p @ [] \<and> tr' = tr @ new \<and>
           opened new = [] @ closed new \<and> length (closed new) \<le> 1 \<and>
           (res = None \<longrightarrow> closed new = [] \<and> length ([]::nat list) = length (a # as)) \<and>
           (\<forall>e. res = Some e \<longrightarrow> length ([]::nat list) < length (a # as) \<and>
                 (\<exists>err msg. e = Decorate err msg [] \<and> msg \<in> set create_msgs) \<and>
                 (\<exists>trk. udpCreate E p' ((a # as) ! length ([]::nat list)) trk = (Inl e, tr')))"
      using eq n u Inl by auto
    then show ?thesis by blast
  next
    case (Inr c)
    let ?p1 = "p\<lparr>udpListen := udpListen p @ [c]\<rparr>"
    from u Inr Cons.prems have rec: "createUDPListeners_loop E as ?p1 tr1 = (res, p', tr')"
      by simp
    from udpCreate_ok [OF u [unfolded Inr]] obtain new1 where
      n1: "tr1 = tr @ new1" "opened new1 = [c]" "closed new1 = []" by blast
    from Cons.IH [OF rec] obtain cs new where
      ih: "udpListen p' = udpListen ?p1 @ cs" "tr' = tr1 @ new"
        "opened new = cs @ closed new" "length (closed new) \<le> 1"
        "res = None \<longrightarrow> closed new = [] \<and> length cs = length as"
        "\<forall>e. res = Some e \<longrightarrow> length cs < length as \<and>
                 (\<exists>err msg. e = Decorate err msg [] \<and> msg \<in> set create_msgs) \<and>
                 (\<exists>trk. udpCreate E p' (as ! length cs) trk = (Inl e, tr'))"
      by blast
    have "udpListen p' = udpListen p @ (c # cs) \<and> tr' = tr @ (new1 @ new) \<and>
           opened (new1 @ new) = (c # cs) @ closed (new1 @ new) \<and>
           length (closed (new1 @ new)) \<le> 1 \<and>
           (res = None \<longrightarrow> closed (new1 @ new) = [] \<and> length (c # cs) = length (a # as)) \<and>
           (\<forall>e. res = Some e \<longrightarrow> length (c # cs) < length (a # as) \<and>
                 (\<exists>err msg. e = Decorate err msg [] \<and> msg \<in> set create_msgs) \<and>
                 (\<exists>trk. udpCreate E p' ((a # as) ! length (c # cs)) trk = (Inl e, tr')))"
      using ih n1 by (simp add: opened_append closed_append)
    then show ?thesis by blast
  qed
qed

lemma udpCreate_cong:
  assumes "UDPBufferSize p = UDPBufferSize q"
  shows "udpCreate E p a tr = udpCreate E q a tr"
  unfolding udpCreate_def assms by (rule refl)

lemma createUDPListeners_loop_cong:
  assumes "UDPBufferSize p = UDPBufferSize q" and "udpListen p = udpListen q"
    and "createUDPListeners_loop E as p tr = (r, p', tr')"
  shows "\<exists>q'. createUDPListeners_loop E as q tr = (r, q', tr') \<and> udpListen q' = udpListen p'"
  using assms
proof (induction as arbitrary: p q tr)
  case Nil
  then show ?case by simp
next
  case (Cons a as)
  obtain r1 tr1 where u: "udpCreate E p a tr = (r1, tr1)" by (cases "udpCreate E p a tr")
  with Cons.prems(1) have uq: "udpCreate E q a tr = (r1, tr1)"
    by (simp add: udpCreate_cong [of p q])
  show ?case
  proof (cases r1)
    case (Inl e)
    with u uq Cons.prems show ?thesis by auto
  next
    case (Inr c)
    let ?p = "p\<lparr>udpListen := udpListen p @ [c]\<rparr>"
    let ?q = "q\<lparr>udpListen := udpListen q @ [c]\<rparr>"
    from u Inr Cons.prems(3) have "createUDPListeners_loop E as ?p tr1 = (r, p', tr')"
      by simp
    moreover have "UDPBufferSize ?p = UDPBufferSize ?q" "udpListen ?p = udpListen ?q"
      using Cons.prems(1,2) by simp_all
    ultimately have "\<exists>q'. createUDPListeners_loop E as ?q tr1 = (r, q', tr') \<and>
                      udpListen q' = udpListen p'"
      using Cons.IH [of ?p ?q tr1] by blast
    with uq Inr show ?thesis by simp
  qed
qed

lemma createUDPListeners_loop_proxy:
  "createUDPListeners_loop E as p tr = (r, p', tr') \<Longrightarrow> p' = p\<lparr>udpListen := udpListen p'\<rparr>"
proof (induction as arbitrary: p tr)
  case Nil
  then show ?case by simp
next
  case (Cons a as)
  obtain r1 tr1 where u: "udpCreate E p a tr = (r1, tr1)" by (cases "udpCreate E p a tr")
  show ?case
  proof (cases r1)
    case (Inl e)
    with u Cons.prems show ?thesis by simp
  next
    case (Inr c)
    with u Cons.prems
    have "createUDPListeners_loop E as (p\<lparr>udpListen := udpListen p @ [c]\<rparr>) tr1 = (r, p', tr')"
      by simp
    from Cons.IH [OF this] have "p' = p\<lparr>udpListen := udpListen p'\<rparr>" by simp
    then show ?thesis .
  qed
qed

lemma createUDPListeners_loop_append:
  "createUDPListeners_loop E (pre @ rest) p tr =
     (case createUDPListeners_loop E pre p tr of
        (None, p1, tr1) \<Rightarrow> createUDPListeners_loop E rest p1 tr1
      | (Some e, p1, tr1) \<Rightarrow> (Some e, p1, tr1))"
proof (induction pre arbitrary: p tr)
  case Nil
  show ?case by simp
next
  case (Cons a pre)
  obtain r tr1 where u: "udpCreate E p a tr = (r, tr1)" by (cases "udpCreate E p a tr")
  show ?case
  proof (cases r)
    case (Inl e)
    with u show ?thesis by simp
  next
    case (Inr c)
    with u Cons.IH [of "p\<lparr>udpListen := udpListen p @ [c]\<rparr>" tr1] show ?thesis by simp
  qed
qed

text \<open>The call fails as soon as one address fails, after any number that succeeded.\<close>

lemma createUDPListeners_aborts:
  assumes "UDPListenAddr p = pre @ a # post"
    and "createUDPListeners E (p\<lparr>UDPListenAddr := pre\<rparr>) tr = (None, p1, tr1)"
    and "udpCreate E p1 a tr1 = (Inl e, tr')"
  shows "createUDPListeners E p tr = (Some e, p\<lparr>udpListen := udpListen p1\<rparr>, tr')"
proof -
  let ?q = "p\<lparr>UDPListenAddr := pre\<rparr>"
  from assms(2) have lq: "createUDPListeners_loop E pre ?q tr = (None, p1, tr1)"
    by (simp add: createUDPListeners_def)
  have "UDPBufferSize ?q = UDPBufferSize p" "udpListen ?q = udpListen p" by simp_all
  from createUDPListeners_loop_cong [OF this lq] obtain p0 where
    l: "createUDPListeners_loop E pre p tr = (None, p0, tr1)" and ul: "udpListen p0 = udpListen p1"
    by blast
  from createUDPListeners_loop_proxy [OF l] have p0: "p0 = p\<lparr>udpListen := udpListen p0\<rparr>" .
  from createUDPListeners_loop_proxy [OF lq] have "p1 = ?q\<lparr>udpListen := udpListen p1\<rparr>" .
  then have "UDPBufferSize p1 = UDPBufferSize ?q" by (metis Proxy.select_convs(2) Proxy.surjective Proxy.update_convs(3))
  moreover from p0 have "UDPBufferSize p0 = UDPBufferSize p" by (metis Proxy.select_convs(2) Proxy.surjective Proxy.update_convs(3))
  ultimately have "UDPBufferSize p0 = UDPBufferSize p1" by simp
  then have "udpCreate E p0 a tr1 = (Inl e, tr')"
    using assms(3) by (simp add: udpCreate_cong [of p0 p1])
  then have "createUDPListeners_loop E (a # post) p0 tr1 = (Some e, p0, tr')" by simp
  with l have "createUDPListeners_loop E (pre @ a # post) p tr = (Some e, p0, tr')"
    by (simp add: createUDPListeners_loop_append)
  with p0 ul assms(1) show ?thesis by (simp add: createUDPListeners_def)
qed

lemma createUDPListeners_first:
  assumes "UDPListenAddr p = a # as" and "udpCreate E p a tr = (Inl e, tr')"
  shows "createUDPListeners E p tr = (Some e, p, tr')"
  using assms by (simp add: createUDPListeners_def)

lemma createUDPListeners_ok:
  assumes "createUDPListeners E p tr = (None, p', tr')"
  shows "\<exists>cs new. udpListen p' = udpListen p @ cs \<and> length cs = length (UDPListenAddr p) \<and>
           tr' = tr @ new \<and> opened new = cs \<and> closed new = []"
proof -
  from assms have "createUDPListeners_loop E (UDPListenAddr p) p tr = (None, p', tr')"
    by (simp add: createUDPListeners_def)
  from createUDPListeners_loop_post [OF this] show ?thesis by auto
qed

text \<open>
  C8.  In \<^verbatim>\<open>udpCreate\<close>, once the socket \<open>c\<close> exists: if a positive buffer size
  is configured and applying it fails, or if applying the socket options fails,
  the call closes \<open>c\<close> as its last action and returns the error decorated with
  the name of the failed step.  Every failing call returns a decorated error
  naming one of the three steps and leaves no socket it opened unclosed.
  \<^verbatim>\<open>createUDPListeners\<close> returns the error of the first \<^verbatim>\<open>udpCreate\<close> call that
  fails, be it for the first address or after any number of addresses that
  succeeded, does nothing after that call, and keeps the sockets registered so
  far; every socket opened on the way is either registered in \<^verbatim>\<open>p.udpListen\<close>
  or closed.  It reports success only when every address got its socket and
  nothing was closed.
\<close>

theorem createUDPListeners_failure:
  "(\<forall>c err. ListenUDP E (tr @ [EvLog ''Creating the UDP server socket'']) a = Inr c \<and>
            0 < UDPBufferSize p \<and>
            SetReadBuffer E (tr @ [EvLog ''Creating the UDP server socket'', EvOpen c]) c
              (UDPBufferSize p) = Some err \<longrightarrow>
      udpCreate E p a tr =
        (Inl (Decorate err ''setting UDP buffer size failed'' []),
         tr @ [EvLog ''Creating the UDP server socket'', EvOpen c,
               EvSetReadBuffer c (UDPBufferSize p), EvClose c]))
   \<and> (\<forall>c err tr2. ListenUDP E (tr @ [EvLog ''Creating the UDP server socket'']) a = Inr c \<and>
            tr2 = tr @ [EvLog ''Creating the UDP server socket'', EvOpen c] @
                  (if 0 < UDPBufferSize p then [EvSetReadBuffer c (UDPBufferSize p)] else []) \<and>
            (0 < UDPBufferSize p \<longrightarrow>
               SetReadBuffer E (tr @ [EvLog ''Creating the UDP server socket'', EvOpen c]) c
                 (UDPBufferSize p) = None) \<and>
            UDPSetOptions E tr2 c = Some err \<longrightarrow>
      udpCreate E p a tr =
        (Inl (Decorate err ''udpSetOptions failed'' []), tr2 @ [EvSetOptions c, EvClose c]))
   \<and> (\<forall>e tr'. udpCreate E p a tr = (Inl e, tr') \<longrightarrow>
        (\<exists>err msg new. e = Decorate err msg [] \<and> msg \<in> set create_msgs \<and>
           tr' = tr @ new \<and> opened new = closed new))
   \<and> (\<forall>e tr' as. udpCreate E p a tr = (Inl e, tr') \<longrightarrow>
        createUDPListeners_loop E (a # as) p tr = (Some e, p, tr'))
   \<and> (\<forall>e p' tr'. createUDPListeners E p tr = (Some e, p', tr') \<longrightarrow>
        (\<exists>cs new. udpListen p' = udpListen p @ cs \<and> length cs < length (UDPListenAddr p) \<and>
           tr' = tr @ new \<and> opened new = cs @ closed new \<and>
           (\<exists>err msg. e = Decorate err msg [] \<and> msg \<in> set create_msgs) \<and>
           (\<exists>trk. udpCreate E p' (UDPListenAddr p ! length cs) trk = (Inl e, tr'))))
   \<and> (\<forall>as e tr'. UDPListenAddr p = a # as \<and> udpCreate E p a tr = (Inl e, tr') \<longrightarrow>
        createUDPListeners E p tr = (Some e, p, tr'))
   \<and> (\<forall>pre post p1 tr1 e tr'.
        UDPListenAddr p = pre @ a # post \<and>
        createUDPListeners E (p\<lparr>UDPListenAddr := pre\<rparr>) tr = (None, p1, tr1) \<and>
        udpCreate E p1 a tr1 = (Inl e, tr') \<longrightarrow>
        createUDPListeners E p tr = (Some e, p\<lparr>udpListen := udpListen p1\<rparr>, tr'))
   \<and> (\<forall>p' tr'. createUDPListeners E p tr = (None, p', tr') \<longrightarrow>
        (\<exists>cs new. udpListen p' = udpListen p @ cs \<and> length cs = length (UDPListenAddr p) \<and>
           tr' = tr @ new \<and> opened new = cs \<and> closed new = []))"
proof -
  have 1: "\<forall>c err. ListenUDP E (tr @ [EvLog ''Creating the UDP server socket'']) a = Inr c \<and>
            0 < UDPBufferSize p \<and>
            SetReadBuffer E (tr @ [EvLog ''Creating the UDP server socket'', EvOpen c]) c
              (UDPBufferSize p) = Some err \<longrightarrow>
      udpCreate E p a tr =
        (Inl (Decorate err ''setting UDP buffer size failed'' []),
         tr @ [EvLog ''Creating the UDP server socket'', EvOpen c,
               EvSetReadBuffer c (UDPBufferSize p), EvClose c])"
    by (simp add: udpCreate_def Let_def)
  have 2: "\<forall>c err tr2. ListenUDP E (tr @ [EvLog ''Creating the UDP server socket'']) a = Inr c \<and>
            tr2 = tr @ [EvLog ''Creating the UDP server socket'', EvOpen c] @
                  (if 0 < UDPBufferSize p then [EvSetReadBuffer c (UDPBufferSize p)] else []) \<and>
            (0 < UDPBufferSize p \<longrightarrow>
               SetReadBuffer E (tr @ [EvLog ''Creating the UDP server socket'', EvOpen c]) c
                 (UDPBufferSize p) = None) \<and>
            UDPSetOptions E tr2 c = Some err \<longrightarrow>
      udpCreate E p a tr =
        (Inl (Decorate err ''udpSetOptions failed'' []), tr2 @ [EvSetOptions c, EvClose c])"
    by (simp add: udpCreate_def Let_def)
  have 3: "\<forall>e tr'. udpCreate E p a tr = (Inl e, tr') \<longrightarrow>
        (\<exists>err msg new. e = Decorate err msg [] \<and> msg \<in> set create_msgs \<and>
           tr' = tr @ new \<and> opened new = closed new)"
    using udpCreate_err by blast
  have 5: "\<forall>e tr' as. udpCreate E p a tr = (Inl e, tr') \<longrightarrow>
        createUDPListeners_loop E (a # as) p tr = (Some e, p, tr')"
    by simp
  have 4: "\<forall>e p' tr'. createUDPListeners E p tr = (Some e, p', tr') \<longrightarrow>
        (\<exists>cs new. udpListen p' = udpListen p @ cs \<and> length cs < length (UDPListenAddr p) \<and>
           tr' = tr @ new \<and> opened new = cs @ closed new \<and>
           (\<exists>err msg. e = Decorate err msg [] \<and> msg \<in> set create_msgs) \<and>
           (\<exists>trk. udpCreate E p' (UDPListenAddr p ! length cs) trk = (Inl e, tr')))"
  proof (intro allI impI)
    fix e p' tr'
    assume "createUDPListeners E p tr = (Some e, p', tr')"
    then have "createUDPListeners_loop E (UDPListenAddr p) p tr = (Some e, p', tr')"
      by (simp add: createUDPListeners_def)
    from createUDPListeners_loop_post [OF this]
    show "\<exists>cs new. udpListen p' = udpListen p @ cs \<and> length cs < length (UDPListenAddr p) \<and>
           tr' = tr @ new \<and> opened new = cs @ closed new \<and>
           (\<exists>err msg. e = Decorate err msg [] \<and> msg \<in> set create_msgs) \<and>
           (\<exists>trk. udpCreate E p' (UDPListenAddr p ! length cs) trk = (Inl e, tr'))"
      by blast
  qed
  have 6: "\<forall>as e tr'. UDPListenAddr p = a # as \<and> udpCreate E p a tr = (Inl e, tr') \<longrightarrow>
        createUDPListeners E p tr = (Some e, p, tr')"
    using createUDPListeners_first by blast
  have 7: "\<forall>pre post p1 tr1 e tr'.
        UDPListenAddr p = pre @ a # post \<and>
        createUDPListeners E (p\<lparr>UDPListenAddr := pre\<rparr>) tr = (None, p1, tr1) \<and>
        udpCreate E p1 a tr1 = (Inl e, tr') \<longrightarrow>
        createUDPListeners E p tr = (Some e, p\<lparr>udpListen := udpListen p1\<rparr>, tr')"
    using createUDPListeners_aborts by blast
  have 8: "\<forall>p' tr'. createUDPListeners E p tr = (None, p', tr') \<longrightarrow>
        (\<exists>cs new. udpListen p' = udpListen p @ cs \<and> length cs = length (UDPListenAddr p) \<and>
           tr' = tr @ new \<and> opened new = cs \<and> closed new = [])"
    using createUDPListeners_ok by blast
  from 1 2 3 5 4 6 7 8 show ?thesis by blast
qed

theorem createUDPListeners_failure_witness:
  "udpCreate envB (proxy0\<lparr>UDPBufferSize := 1024\<rparr>) ([127, 0, 0, 1], 53) [] =
     (Inl (Decorate (NetError ''ENOBUFS'') ''setting UDP buffer size failed'' []),
      [EvLog ''Creating the UDP server socket'', EvOpen 0, EvSetReadBuffer 0 1024, EvClose 0])
   \<and> createUDPListeners envL proxy0 [] =
     (Some (Decorate (NetError ''EADDRINUSE'') ''couldn't listen to UDP socket'' []),
      proxy0, [EvLog ''Creating the UDP server socket''])
   \<and> createUDPListeners envF proxy0 [] =
     (Some (Decorate (NetError ''EPERM'') ''udpSetOptions failed'' []),
      proxy0\<lparr>udpListen := [0]\<rparr>,
      [EvLog ''Creating the UDP server socket'', EvOpen 0, EvSetOptions 0,
       EvLog ''Listening to udp://%s'',
       EvLog ''Creating the UDP server socket'', EvOpen 1, EvSetOptions 1, EvClose 1])"
proof -
  let ?pb = "proxy0\<lparr>UDPBufferSize := 1024\<rparr>"
  let ?a1 = "([127, 0, 0, 1], 53) :: UDPAddr"
  let ?a2 = "([127, 0, 0, 2], 53) :: UDPAddr"
  let ?t1 = "[EvLog ''Creating the UDP server socket'', EvOpen 0, EvSetOptions 0,
              EvLog ''Listening to udp://%s'']"
  let ?p1 = "proxy0\<lparr>UDPListenAddr := [?a1], udpListen := [0]\<rparr>"
  note ev = udpCreate_def createUDPListeners_def envF_def envB_def envL_def env0_def
      proxy0_def Let_def
  have l: "ListenUDP envB ([] @ [EvLog ''Creating the UDP server socket'']) ?a1 = Inr 0"
    by (simp add: ev)
  have b: "0 < UDPBufferSize ?pb" by (simp add: proxy0_def)
  have f: "SetReadBuffer envB ([] @ [EvLog ''Creating the UDP server socket'', EvOpen 0]) 0
             (UDPBufferSize ?pb) = Some (NetError ''ENOBUFS'')"
    by (simp add: ev)
  from createUDPListeners_failure [of envB "[]" ?a1 ?pb, THEN conjunct1] l b f
  have 1: "udpCreate envB ?pb ?a1 [] =
     (Inl (Decorate (NetError ''ENOBUFS'') ''setting UDP buffer size failed'' []),
      [] @ [EvLog ''Creating the UDP server socket'', EvOpen 0,
            EvSetReadBuffer 0 (UDPBufferSize ?pb), EvClose 0])"
    by blast
  have a0: "UDPListenAddr proxy0 = ?a1 # [?a2]" by (simp add: proxy0_def)
  have u0: "udpCreate envL proxy0 ?a1 [] =
     (Inl (Decorate (NetError ''EADDRINUSE'') ''couldn't listen to UDP socket'' []),
      [EvLog ''Creating the UDP server socket''])"
    by (simp add: ev)
  from createUDPListeners_failure [of envL "[]" ?a1 proxy0, THEN conjunct2, THEN conjunct2, THEN conjunct2, THEN conjunct2, THEN conjunct2, THEN conjunct1]
    a0 u0
  have 2: "createUDPListeners envL proxy0 [] =
     (Some (Decorate (NetError ''EADDRINUSE'') ''couldn't listen to UDP socket'' []),
      proxy0, [EvLog ''Creating the UDP server socket''])"
    by blast
  have a1: "UDPListenAddr proxy0 = [?a1] @ ?a2 # []" by (simp add: proxy0_def)
  have pre: "createUDPListeners envF (proxy0\<lparr>UDPListenAddr := [?a1]\<rparr>) [] = (None, ?p1, ?t1)"
    by (simp add: ev)
  have u1: "udpCreate envF ?p1 ?a2 ?t1 =
     (Inl (Decorate (NetError ''EPERM'') ''udpSetOptions failed'' []),
      ?t1 @ [EvLog ''Creating the UDP server socket'', EvOpen 1, EvSetOptions 1, EvClose 1])"
    by (simp add: ev)
  from createUDPListeners_failure [of envF "[]" ?a2 proxy0, THEN conjunct2, THEN conjunct2, THEN conjunct2, THEN conjunct2, THEN conjunct2, THEN conjunct2, THEN conjunct1]
    a1 pre u1
  have "createUDPListeners envF proxy0 [] =
     (Some (Decorate (NetError ''EPERM'') ''udpSetOptions failed'' []),
      proxy0\<lparr>udpListen := udpListen ?p1\<rparr>,
      ?t1 @ [EvLog ''Creating the UDP server socket'', EvOpen 1, EvSetOptions 1, EvClose 1])"
    by blast
  then have 3: "createUDPListeners envF proxy0 [] =
     (Some (Decorate (NetError ''EPERM'') ''udpSetOptions failed'' []),
      proxy0\<lparr>udpListen := [0]\<rparr>,
      [EvLog ''Creating the UDP server socket'', EvOpen 0, EvSetOptions 0,
       EvLog ''Listening to udp://%s'',
       EvLog ''Creating the UDP server socket'', EvOpen 1, EvSetOptions 1, EvClose 1])"
    by simp
  from 1 2 3 show ?thesis by (simp add: proxy0_def)
qed

section \<open>The responder\<close>

text \<open>
  C3.  For a request context with a resolved response (and the UDP-typed
  connection and peer address \<^verbatim>\<open>respondUDP\<close> narrows to), and with
  \<^verbatim>\<open>IsConnClosed\<close> false on the nil error: \<^verbatim>\<open>respondUDP\<close> returns nil if and only
  if encoding succeeds, the write returns no error and the number of bytes
  written equals the encoded length; a write without error of a different number
  of bytes returns the \<^verbatim>\<open>fmt.Errorf\<close> short-write error, which is neither nil
  nor a decorated error; an encode failure returns the decorated encode error and
  leaves the trace as it was, so no write is attempted.
\<close>

theorem respondUDP_success_iff:
  assumes "Res d = Some resp" and "Conn d = Conn_UDP c" and "Addr d = Addr_UDP ra"
    and "\<not> IsConnClosed E None"
  shows "(fst (respondUDP E d tr) = Return None \<longleftrightarrow>
            (\<exists>bs. Pack E resp = Inr bs \<and>
                  UDPWrite E tr bs c ra (localIP d) = (int (length bs), None)))
       \<and> (\<forall>bs n. Pack E resp = Inr bs \<and> UDPWrite E tr bs c ra (localIP d) = (n, None) \<and>
                  n \<noteq> int (length bs) \<longrightarrow>
            fst (respondUDP E d tr) =
              Return (Some (Errorf ''udpWrite() returned with %d != %d'' [n, int (length bs)])))
       \<and> (\<forall>err. Pack E resp = Inl err \<longrightarrow>
            respondUDP E d tr =
              (Return (Some (Decorate err ''couldn't convert message into wire format: %s''
                               [MsgString E resp])), tr))"
proof (intro conjI allI impI)
  show "fst (respondUDP E d tr) = Return None \<longleftrightarrow>
            (\<exists>bs. Pack E resp = Inr bs \<and>
                  UDPWrite E tr bs c ra (localIP d) = (int (length bs), None))"
  proof (cases "Pack E resp")
    case (Inl e)
    with assms show ?thesis by (simp add: respondUDP_def)
  next
    case (Inr bs)
    obtain n err where w: "UDPWrite E tr bs c ra (localIP d) = (n, err)"
      by (cases "UDPWrite E tr bs c ra (localIP d)")
    with Inr assms show ?thesis
      by (cases err) (auto simp: respondUDP_def Let_def)
  qed
next
  fix bs n
  assume "Pack E resp = Inr bs \<and> UDPWrite E tr bs c ra (localIP d) = (n, None) \<and>
            n \<noteq> int (length bs)"
  with assms show "fst (respondUDP E d tr) =
      Return (Some (Errorf ''udpWrite() returned with %d != %d'' [n, int (length bs)]))"
    by (simp add: respondUDP_def Let_def)
next
  fix err
  assume "Pack E resp = Inl err"
  with assms show "respondUDP E d tr =
      (Return (Some (Decorate err ''couldn't convert message into wire format: %s''
                       [MsgString E resp])), tr)"
    by (simp add: respondUDP_def)
qed

theorem respondUDP_success_iff_witness:
  "fst (respondUDP env0 ctx0 []) = Return None \<and>
   fst (respondUDP (env0\<lparr>UDPWrite := (\<lambda>tr bs c a l. (2, None))\<rparr>) ctx0 []) =
     Return (Some (Errorf ''udpWrite() returned with %d != %d'' [2, 3])) \<and>
   respondUDP env0 (ctx0\<lparr>Res := Some [1, 2, 3, 4, 5]\<rparr>) [] =
     (Return (Some (Decorate (NetError ''oversize'')
        ''couldn't convert message into wire format: %s'' [''msg''])), [])"
proof -
  have a: "Res ctx0 = Some [1, 2, 3]" "Conn ctx0 = Conn_UDP 0"
    "Addr ctx0 = Addr_UDP ([127, 0, 0, 1], 5353)" "\<not> IsConnClosed env0 None"
    by (simp_all add: ctx0_def env0_def)
  have b: "\<not> IsConnClosed (env0\<lparr>UDPWrite := (\<lambda>tr bs c a l. (2, None))\<rparr>) None"
    by (simp add: env0_def)
  have c: "Res (ctx0\<lparr>Res := Some [1, 2, 3, 4, 5]\<rparr>) = Some [1, 2, 3, 4, 5]"
    "Conn (ctx0\<lparr>Res := Some [1, 2, 3, 4, 5]\<rparr>) = Conn_UDP 0"
    "Addr (ctx0\<lparr>Res := Some [1, 2, 3, 4, 5]\<rparr>) = Addr_UDP ([127, 0, 0, 1], 5353)"
    by (simp_all add: ctx0_def)
  from respondUDP_success_iff [OF a, of "[]"]
  have 1: "fst (respondUDP env0 ctx0 []) = Return None"
    by (simp add: env0_def ctx0_def)
  from respondUDP_success_iff [OF a(1,2,3) b, of "[]"]
  have 2: "fst (respondUDP (env0\<lparr>UDPWrite := (\<lambda>tr bs c a l. (2, None))\<rparr>) ctx0 []) =
     Return (Some (Errorf ''udpWrite() returned with %d != %d'' [2, 3]))"
    by (simp add: env0_def ctx0_def)
  from respondUDP_success_iff [OF c a(4), of "[]"]
  have 3: "respondUDP env0 (ctx0\<lparr>Res := Some [1, 2, 3, 4, 5]\<rparr>) [] =
     (Return (Some (Decorate (NetError ''oversize'')
        ''couldn't convert message into wire format: %s'' [''msg''])), [])"
    by (simp add: env0_def ctx0_def)
  from 1 2 3 show ?thesis by simp
qed

text \<open>
  C4.  Once the response is encoded and the write has returned \<open>(n, err)\<close>: if
  \<open>n\<close> is zero and \<open>err\<close> is a closed-socket condition, \<^verbatim>\<open>respondUDP\<close> returns
  \<open>err\<close> itself, unwrapped; every other write error is returned inside
  \<^verbatim>\<open>errorx.Decorate\<close>.
\<close>

theorem respondUDP_write_error:
  assumes "Res d = Some resp" and "Pack E resp = Inr bs"
    and "Conn d = Conn_UDP c" and "Addr d = Addr_UDP ra"
    and "UDPWrite E tr bs c ra (localIP d) = (n, err)"
  shows "(n = 0 \<and> IsConnClosed E err \<longrightarrow> fst (respondUDP E d tr) = Return err)
       \<and> (\<not> (n = 0 \<and> IsConnClosed E err) \<longrightarrow>
            (\<forall>e. err = Some e \<longrightarrow>
               fst (respondUDP E d tr) =
                 Return (Some (Decorate e ''udpWrite() returned error'' []))))"
  using assms by (auto simp: respondUDP_def Let_def)

theorem respondUDP_write_error_witness:
  "fst (respondUDP (env0\<lparr>UDPWrite := (\<lambda>tr bs c a l. (0, Some closedErr))\<rparr>) ctx0 []) =
     Return (Some closedErr) \<and>
   fst (respondUDP (env0\<lparr>UDPWrite := (\<lambda>tr bs c a l. (1, Some closedErr))\<rparr>) ctx0 []) =
     Return (Some (Decorate closedErr ''udpWrite() returned error'' []))"
proof -
  let ?E0 = "env0\<lparr>UDPWrite := (\<lambda>tr bs c a l. (0, Some closedErr))\<rparr>"
  let ?E1 = "env0\<lparr>UDPWrite := (\<lambda>tr bs c a l. (1, Some closedErr))\<rparr>"
  have d: "Res ctx0 = Some [1, 2, 3]" "Conn ctx0 = Conn_UDP 0"
    "Addr ctx0 = Addr_UDP ([127, 0, 0, 1], 5353)"
    by (simp_all add: ctx0_def)
  have p0: "Pack ?E0 [1, 2, 3] = Inr [1, 2, 3]" and p1: "Pack ?E1 [1, 2, 3] = Inr [1, 2, 3]"
    by (simp_all add: env0_def)
  have w0: "UDPWrite ?E0 [] [1, 2, 3] 0 ([127, 0, 0, 1], 5353) (localIP ctx0) =
              (0, Some closedErr)"
    and w1: "UDPWrite ?E1 [] [1, 2, 3] 0 ([127, 0, 0, 1], 5353) (localIP ctx0) =
              (1, Some closedErr)"
    by simp_all
  have c0: "IsConnClosed ?E0 (Some closedErr)" by (simp add: env0_def)
  from respondUDP_write_error [OF d(1) p0 d(2,3) w0] c0
  have 1: "fst (respondUDP ?E0 ctx0 []) = Return (Some closedErr)" by simp
  from respondUDP_write_error [OF d(1) p1 d(2,3) w1]
  have 2: "fst (respondUDP ?E1 ctx0 []) =
     Return (Some (Decorate closedErr ''udpWrite() returned error'' []))" by simp
  from 1 2 show ?thesis by simp
qed

text \<open>
  C10, as stated: \<^verbatim>\<open>respondUDP\<close> runs without fault only if the response is set
  and the connection and the peer address are UDP-typed.  It fails on a context
  whose response does not encode: line 120 returns before the type assertions of
  lines 123-124 are reached, so a connection of another type causes no fault.
\<close>

theorem respondUDP_fault_counterexample:
  "\<not> faults (fst (respondUDP env0
        (ctx0\<lparr>Res := Some [1, 2, 3, 4, 5], Conn := Conn_other 9\<rparr>) []))
   \<and> \<not> is_udp_conn (Conn (ctx0\<lparr>Res := Some [1, 2, 3, 4, 5], Conn := Conn_other 9\<rparr>))"
  by (simp add: respondUDP_def env0_def ctx0_def faults_def is_udp_conn_def)

text \<open>
  C10, amended.  \<^verbatim>\<open>respondUDP\<close> checks none of the three preconditions and has
  no error branch for them: it faults exactly when the response is unset, or the
  response encodes and the connection or the peer address is not UDP-typed; when
  encoding fails it returns the decorated encode error whatever the two types
  are; and an error it returns on a context with a field of another type is
  always that encode error.
\<close>

theorem respondUDP_faults_iff:
  "(faults (fst (respondUDP E d tr)) \<longleftrightarrow>
      (case Res d of
         None \<Rightarrow> True
       | Some resp \<Rightarrow>
           (case Pack E resp of
              Inl err \<Rightarrow> False
            | Inr bs \<Rightarrow> \<not> is_udp_conn (Conn d) \<or> \<not> is_udp_addr (Addr d))))
   \<and> (\<forall>resp err. Res d = Some resp \<and> Pack E resp = Inl err \<longrightarrow>
         respondUDP E d tr =
           (Return (Some (Decorate err ''couldn't convert message into wire format: %s''
                            [MsgString E resp])), tr))
   \<and> (\<forall>e. fst (respondUDP E d tr) = Return (Some e) \<longrightarrow>
         is_udp_conn (Conn d) \<and> is_udp_addr (Addr d) \<or>
         (\<exists>resp err. Res d = Some resp \<and> Pack E resp = Inl err))"
  by (auto simp: respondUDP_def Let_def faults_def is_udp_conn_def is_udp_addr_def
      split: option.splits sum.splits conn_iface.splits addr_iface.splits if_splits)

theorem respondUDP_faults_iff_witness:
  "faults (fst (respondUDP env0 (ctx0\<lparr>Res := None\<rparr>) []))
   \<and> faults (fst (respondUDP env0 (ctx0\<lparr>Conn := Conn_other 9\<rparr>) []))
   \<and> faults (fst (respondUDP env0 (ctx0\<lparr>Addr := Addr_nil\<rparr>) []))
   \<and> \<not> faults (fst (respondUDP env0 ctx0 []))"
  using respondUDP_faults_iff [of env0 "ctx0\<lparr>Res := None\<rparr>" "[]"]
    respondUDP_faults_iff [of env0 "ctx0\<lparr>Conn := Conn_other 9\<rparr>" "[]"]
    respondUDP_faults_iff [of env0 "ctx0\<lparr>Addr := Addr_nil\<rparr>" "[]"]
    respondUDP_faults_iff [of env0 ctx0 "[]"]
  by (simp add: env0_def ctx0_def is_udp_conn_def is_udp_addr_def)

section \<open>The packet handler\<close>

text \<open>
  C7.  When the bytes do not decode, \<^verbatim>\<open>udpHandlePacket\<close> only logs: it sends
  nothing, it does not call the resolver, and it has no result that could carry
  an error.  In the transition system the goroutine's step leaves the loop's
  control point, the running flag, the store and the loop's trace as they were
  and moves the goroutine on to its release, so the loop is not terminated.
\<close>

theorem udpHandlePacket_decode_failure:
  assumes "Unpack E packet = Inl err"
  shows "udpHandlePacket E packet lip ra c tr =
           tr @ [EvLog ''Start handling new UDP packet from %s'',
                 EvLog ''error handling UDP packet: %s'']
       \<and> writes (udpHandlePacket E packet lip ra c tr) = writes tr
       \<and> (\<forall>h. udpHandlePacket (E\<lparr>handleDNSRequest := h\<rparr>) packet lip ra c tr =
                udpHandlePacket E packet lip ra c tr)
       \<and> (\<forall>s i. i < length (tasks s) \<and> t_point (tasks s ! i) = Handling \<and>
                 heap s ! t_packet (tasks s ! i) = packet \<longrightarrow>
             loop_pc (step E (Task i) s) = loop_pc s \<and>
             proxy (step E (Task i) s) = proxy s \<and>
             heap (step E (Task i) s) = heap s \<and>
             ltrace (step E (Task i) s) = ltrace s \<and>
             writes (ttrace (step E (Task i) s)) = writes (ttrace s) \<and>
             tasks (step E (Task i) s) = (tasks s)[i := (tasks s ! i)\<lparr>t_point := Releasing\<rparr>])"
proof -
  have h: "\<And>E' tr'. Unpack E' packet = Inl err \<Longrightarrow> udpHandlePacket E' packet lip ra c tr' =
           tr' @ [EvLog ''Start handling new UDP packet from %s'',
                 EvLog ''error handling UDP packet: %s'']" for lip ra c
    by (simp add: udpHandlePacket_def)
  have 1: "udpHandlePacket E packet lip ra c tr =
           tr @ [EvLog ''Start handling new UDP packet from %s'',
                 EvLog ''error handling UDP packet: %s'']"
    using assms by (rule h)
  have 2: "writes (udpHandlePacket E packet lip ra c tr) = writes tr"
    by (simp add: 1 writes_append)
  have 3: "\<forall>h. udpHandlePacket (E\<lparr>handleDNSRequest := h\<rparr>) packet lip ra c tr =
                udpHandlePacket E packet lip ra c tr"
    using assms by (simp add: h)
  have 4: "\<forall>s i. i < length (tasks s) \<and> t_point (tasks s ! i) = Handling \<and>
                 heap s ! t_packet (tasks s ! i) = packet \<longrightarrow>
             loop_pc (step E (Task i) s) = loop_pc s \<and>
             proxy (step E (Task i) s) = proxy s \<and>
             heap (step E (Task i) s) = heap s \<and>
             ltrace (step E (Task i) s) = ltrace s \<and>
             writes (ttrace (step E (Task i) s)) = writes (ttrace s) \<and>
             tasks (step E (Task i) s) = (tasks s)[i := (tasks s ! i)\<lparr>t_point := Releasing\<rparr>]"
    using assms by (simp add: task_step_def Let_def h writes_append)
  from 1 2 3 4 show ?thesis by blast
qed

theorem udpHandlePacket_decode_failure_witness:
  "Unpack env0 [7] = Inl (NetError ''short'')
   \<and> udpHandlePacket env0 [7] [127, 0, 0, 1] ([10, 0, 0, 1], 4000) 0 [] =
       [EvLog ''Start handling new UDP packet from %s'', EvLog ''error handling UDP packet: %s'']
   \<and> writes (udpHandlePacket env0 [7] [127, 0, 0, 1] ([10, 0, 0, 1], 4000) 0 []) = 0"
proof -
  have h: "Unpack env0 [7] = Inl (NetError ''short'')" by (simp add: env0_def)
  from udpHandlePacket_decode_failure [OF h, of "[127, 0, 0, 1]" "([10, 0, 0, 1], 4000)" 0 "[]"] h
  show ?thesis by simp
qed

section \<open>The ingestion loop\<close>

text \<open>
  C9, at the failing input: the running flag is false when the loop reaches
  line 59.  The loop takes the read lock, returns at line 61, and the lock it
  took is still held.  With the flag true the same step releases the lock
  (line 63) before the read.
\<close>

theorem loop_exit_holds_rlock:
  "\<not> started (proxy stateF) \<and> loop_pc stateF = AtCheck \<and> rlocks (proxy stateF) = 0
   \<and> loop_pc (step env0 (Loop rd0) stateF) = Exited
   \<and> rlocks (proxy (step env0 (Loop rd0) stateF)) = 1
   \<and> loop_pc (step env0 (Loop rd0) state0) = AtRead
   \<and> rlocks (proxy (step env0 (Loop rd0) state0)) = 0"
  by (simp add: stateF_def state0_def env0_def proxy0_def sema0_def rd0_def
      udpPacketLoop_init_def udpPacketLoop_step_def task_step_def shutdown_step_def
      RLock_def RUnlock_def acquire_def release_def go_copy_def go_make_def Let_def
      udpHandlePacket_def)

subsection \<open>The running flag\<close>

lemma stopped_step: "stopped r s \<Longrightarrow> stopped r (step E x s)"
proof (cases x)
  case (Loop rd)
  assume "stopped r s"
  with Loop show ?thesis
    by (cases "loop_pc s")
       (auto simp: stopped_def udpPacketLoop_step_def Let_def acquire_def RLock_def reads_append
          split: option.splits)
next
  case (Task i)
  assume "stopped r s"
  with Task show ?thesis
    by (cases "t_point (tasks s ! i)")
       (auto simp: stopped_def task_step_def Let_def split: option.splits)
next
  case Shutdown
  assume "stopped r s"
  with Shutdown show ?thesis by (simp add: stopped_def shutdown_step_def)
qed

lemma closed_step: "closed (ltrace (step E x s)) = closed (ltrace s)"
proof (cases x)
  case (Loop rd)
  then show ?thesis
    by (cases "loop_pc s")
       (auto simp: udpPacketLoop_step_def Let_def closed_append split: option.splits)
next
  case (Task i)
  then show ?thesis
    by (cases "t_point (tasks s ! i)")
       (auto simp: task_step_def Let_def split: option.splits)
next
  case Shutdown
  then show ?thesis by (simp add: shutdown_step_def)
qed

lemma exited_step:
  "loop_pc s = Exited \<and> ltrace s = l \<Longrightarrow>
     loop_pc (step E x s) = Exited \<and> ltrace (step E x s) = l"
proof (cases x)
  case (Loop rd)
  assume "loop_pc s = Exited \<and> ltrace s = l"
  with Loop show ?thesis by (simp add: udpPacketLoop_step_def)
next
  case (Task i)
  assume "loop_pc s = Exited \<and> ltrace s = l"
  with Task show ?thesis
    by (cases "t_point (tasks s ! i)")
       (auto simp: task_step_def Let_def split: option.splits)
next
  case Shutdown
  assume "loop_pc s = Exited \<and> ltrace s = l"
  with Shutdown show ?thesis by (simp add: shutdown_step_def)
qed

lemma late_step: "late r s \<Longrightarrow> late r (step E x s)"
proof (cases x)
  case (Loop rd)
  assume "late r s"
  with Loop show ?thesis
    by (cases "loop_pc s")
       (auto simp: late_def udpPacketLoop_step_def Let_def acquire_def RLock_def reads_append
          split: option.splits)
next
  case (Task i)
  assume "late r s"
  with Task show ?thesis
    by (cases "t_point (tasks s ! i)")
       (auto simp: late_def task_step_def Let_def split: option.splits)
next
  case Shutdown
  assume "late r s"
  with Shutdown show ?thesis by (simp add: late_def shutdown_step_def)
qed

lemma late_run:
  assumes "\<not> started (proxy s)"
  shows "reads (ltrace (run E as s)) \<le> Suc (reads (ltrace s)) \<and> \<not> started (proxy (run E as s))"
proof -
  from assms have "late (reads (ltrace s)) s" by (simp add: late_def)
  then have "late (reads (ltrace s)) (run E as s)"
    by (rule run_invariant [where P = "late (reads (ltrace s))", rotated]) (rule late_step)
  then show ?thesis by (auto simp: late_def split: if_splits)
qed

text \<open>
  C6, as stated: once the flag is false the loop issues no further read.  It
  fails when the flag is cleared after the check of lines 59-63 has passed and
  before the read of line 65: the flag is false and the read is still issued.
\<close>

theorem read_after_flag_false_counterexample:
  "started (proxy state0)
   \<and> \<not> started (proxy (run env0 [Loop rd0, Shutdown] state0))
   \<and> reads (ltrace (run env0 [Loop rd0, Shutdown] state0)) = 0
   \<and> reads (ltrace (step env0 (Loop rd0) (run env0 [Loop rd0, Shutdown] state0))) = 1"
  by (simp add: state0_def env0_def proxy0_def sema0_def rd0_def
      udpPacketLoop_init_def udpPacketLoop_step_def shutdown_step_def
      RLock_def RUnlock_def go_copy_def go_make_def Let_def)

text \<open>
  C6, amended.  A read is issued only by the loop's step at line 65, that
  control point is entered only by the check of lines 59-63 finding the flag
  true, and the read leaves it, so every read is preceded by its own check.  A
  check that finds the flag false exits the loop without any effect.  Once the
  flag is false at most one further read is issued, that of an iteration whose
  check had already passed, and none if the loop is not between its check and
  its read.  The loop closes nothing, and once out it stays out.
\<close>

theorem flag_checked_before_read:
  "(reads (ltrace (step E x s)) \<noteq> reads (ltrace s) \<longrightarrow>
      loop_pc s = AtRead \<and> (\<exists>rd. x = Loop rd) \<and> loop_pc (step E x s) \<noteq> AtRead)
   \<and> (loop_pc (step E x s) = AtRead \<and> loop_pc s \<noteq> AtRead \<longrightarrow>
        loop_pc s = AtCheck \<and> started (proxy s) \<and> (\<exists>rd. x = Loop rd))
   \<and> (loop_pc s = AtCheck \<and> \<not> started (proxy s) \<longrightarrow>
        loop_pc (step E (Loop rd) s) = Exited \<and> ltrace (step E (Loop rd) s) = ltrace s)
   \<and> (\<not> started (proxy s) \<and> loop_pc s \<noteq> AtRead \<longrightarrow>
        (\<forall>as. reads (ltrace (run E as s)) = reads (ltrace s) \<and>
              \<not> started (proxy (run E as s)) \<and> loop_pc (run E as s) \<noteq> AtRead))
   \<and> (\<forall>as. closed (ltrace (run E as s)) = closed (ltrace s))
   \<and> (loop_pc s = Exited \<longrightarrow>
        (\<forall>as. loop_pc (run E as s) = Exited \<and> ltrace (run E as s) = ltrace s))
   \<and> (\<not> started (proxy s) \<longrightarrow>
        (\<forall>as. reads (ltrace (run E as s)) \<le> Suc (reads (ltrace s)) \<and>
              \<not> started (proxy (run E as s))))"
proof -
  have 1: "reads (ltrace (step E x s)) \<noteq> reads (ltrace s) \<longrightarrow>
      loop_pc s = AtRead \<and> (\<exists>rd. x = Loop rd) \<and> loop_pc (step E x s) \<noteq> AtRead"
  proof (cases x)
    case (Loop rd)
    then show ?thesis
      by (cases "loop_pc s")
         (auto simp: udpPacketLoop_step_def Let_def reads_append split: option.splits)
  next
    case (Task i)
    then show ?thesis
      by (cases "t_point (tasks s ! i)")
         (auto simp: task_step_def Let_def split: option.splits)
  next
    case Shutdown
    then show ?thesis by (simp add: shutdown_step_def)
  qed
  have 2: "loop_pc (step E x s) = AtRead \<and> loop_pc s \<noteq> AtRead \<longrightarrow>
        loop_pc s = AtCheck \<and> started (proxy s) \<and> (\<exists>rd. x = Loop rd)"
  proof (cases x)
    case (Loop rd)
    then show ?thesis
      by (cases "loop_pc s")
         (auto simp: udpPacketLoop_step_def Let_def RLock_def split: option.splits if_splits)
  next
    case (Task i)
    then show ?thesis
      by (cases "t_point (tasks s ! i)")
         (auto simp: task_step_def Let_def split: option.splits)
  next
    case Shutdown
    then show ?thesis by (simp add: shutdown_step_def)
  qed
  have 3: "loop_pc s = AtCheck \<and> \<not> started (proxy s) \<longrightarrow>
        loop_pc (step E (Loop rd) s) = Exited \<and> ltrace (step E (Loop rd) s) = ltrace s"
    by (simp add: udpPacketLoop_step_def RLock_def)
  have 4: "\<not> started (proxy s) \<and> loop_pc s \<noteq> AtRead \<longrightarrow>
        (\<forall>as. reads (ltrace (run E as s)) = reads (ltrace s) \<and>
              \<not> started (proxy (run E as s)) \<and> loop_pc (run E as s) \<noteq> AtRead)"
  proof (intro impI allI)
    fix as
    assume "\<not> started (proxy s) \<and> loop_pc s \<noteq> AtRead"
    then have "stopped (reads (ltrace s)) s" by (simp add: stopped_def)
    then have "stopped (reads (ltrace s)) (run E as s)"
      by (rule run_invariant [where P = "stopped (reads (ltrace s))", rotated])
         (rule stopped_step)
    then show "reads (ltrace (run E as s)) = reads (ltrace s) \<and>
              \<not> started (proxy (run E as s)) \<and> loop_pc (run E as s) \<noteq> AtRead"
      by (simp add: stopped_def)
  qed
  have 5: "\<forall>as. closed (ltrace (run E as s)) = closed (ltrace s)"
  proof
    fix as
    show "closed (ltrace (run E as s)) = closed (ltrace s)"
      by (rule run_invariant [where P = "\<lambda>t. closed (ltrace t) = closed (ltrace s)"])
         (simp_all add: closed_step)
  qed
  have 6: "loop_pc s = Exited \<longrightarrow>
        (\<forall>as. loop_pc (run E as s) = Exited \<and> ltrace (run E as s) = ltrace s)"
  proof (intro impI allI)
    fix as
    assume "loop_pc s = Exited"
    then have "loop_pc s = Exited \<and> ltrace s = ltrace s" by simp
    then show "loop_pc (run E as s) = Exited \<and> ltrace (run E as s) = ltrace s"
      by (rule run_invariant
            [where P = "\<lambda>t. loop_pc t = Exited \<and> ltrace t = ltrace s", rotated])
         (rule exited_step)
  qed
  have 7: "\<not> started (proxy s) \<longrightarrow>
        (\<forall>as. reads (ltrace (run E as s)) \<le> Suc (reads (ltrace s)) \<and>
              \<not> started (proxy (run E as s)))"
    using late_run by blast
  from 1 2 3 4 5 6 7 show ?thesis by blast
qed

theorem flag_checked_before_read_witness:
  "loop_pc stateF = AtCheck \<and> \<not> started (proxy stateF)
   \<and> loop_pc (step env0 (Loop rd0) stateF) = Exited
   \<and> reads (ltrace (run env0 [Loop rd0, Loop rd0, Shutdown, Loop rd0] stateF)) = 0
   \<and> closed (ltrace (run env0 [Loop rd0, Loop rd0, Shutdown, Loop rd0] stateF)) = []
   \<and> started (proxy (run env0 [Loop rd0, Loop rd0] state0))
   \<and> \<not> started (proxy (run env0 [Loop rd0, Loop rd0, Shutdown] state0))
   \<and> reads (ltrace (run env0 [Loop rd0, Loop rd0, Shutdown] state0)) = 1
   \<and> reads (ltrace (run env0 [Loop rd0, Loop rd0, Loop rd0, Loop rd0]
              (run env0 [Loop rd0, Loop rd0, Shutdown] state0))) = 1
   \<and> loop_pc (run env0 [Loop rd0, Loop rd0, Loop rd0, Loop rd0]
              (run env0 [Loop rd0, Loop rd0, Shutdown] state0)) = Exited
   \<and> \<not> started (proxy (run env0 [Loop rd0, Shutdown] state0))
   \<and> reads (ltrace (run env0 [Loop rd0, Shutdown] state0)) = 0
   \<and> reads (ltrace (run env0 [Loop rd0, Loop rd0, Loop rd0, Loop rd0, Loop rd0]
              (run env0 [Loop rd0, Shutdown] state0))) \<le> 1"
proof -
  let ?sG = "run env0 [Loop rd0, Loop rd0, Shutdown] state0"
  let ?sR = "run env0 [Loop rd0, Shutdown] state0"
  let ?as = "[Loop rd0, Loop rd0, Loop rd0, Loop rd0]"
  let ?bs = "[Loop rd0, Loop rd0, Loop rd0, Loop rd0, Loop rd0]"
  note ev = stateF_def state0_def env0_def proxy0_def sema0_def rd0_def
      udpPacketLoop_init_def udpPacketLoop_step_def task_step_def shutdown_step_def
      RLock_def RUnlock_def acquire_def release_def go_copy_def go_make_def Let_def
      udpHandlePacket_def
  have c: "loop_pc stateF = AtCheck" and f: "\<not> started (proxy stateF)"
    by (simp_all add: ev)
  have r0: "reads (ltrace stateF) = 0" and c0: "closed (ltrace stateF) = []"
    by (simp_all add: ev)
  have ne: "loop_pc stateF \<noteq> AtRead" using c by simp
  note t = flag_checked_before_read [of env0 "Loop rd0" stateF rd0]
  from t [THEN conjunct2, THEN conjunct2, THEN conjunct1] c f
  have 1: "loop_pc (step env0 (Loop rd0) stateF) = Exited" by blast
  from t [THEN conjunct2, THEN conjunct2, THEN conjunct2, THEN conjunct1] f ne
  have 2: "reads (ltrace (run env0 [Loop rd0, Loop rd0, Shutdown, Loop rd0] stateF)) =
              reads (ltrace stateF)"
    by blast
  from t [THEN conjunct2, THEN conjunct2, THEN conjunct2, THEN conjunct2, THEN conjunct1]
  have 3: "closed (ltrace (run env0 [Loop rd0, Loop rd0, Shutdown, Loop rd0] stateF)) =
              closed (ltrace stateF)"
    by blast
  have g0: "started (proxy (run env0 [Loop rd0, Loop rd0] state0))" by (simp add: ev)
  have gf: "\<not> started (proxy ?sG)" and gp: "loop_pc ?sG \<noteq> AtRead"
    and gr: "reads (ltrace ?sG) = 1"
    by (simp_all add: ev)
  from flag_checked_before_read [of env0 "Loop rd0" ?sG rd0,
      THEN conjunct2, THEN conjunct2, THEN conjunct2, THEN conjunct1] gf gp
  have "reads (ltrace (run env0 ?as ?sG)) = reads (ltrace ?sG)" by blast
  with gr have 4: "reads (ltrace (run env0 ?as ?sG)) = 1" by simp
  have 5: "loop_pc (run env0 ?as ?sG) = Exited" by (simp add: ev)
  have rf: "\<not> started (proxy ?sR)" and rr: "reads (ltrace ?sR) = 0"
    by (simp_all add: ev)
  from flag_checked_before_read [of env0 "Loop rd0" ?sR rd0,
      THEN conjunct2, THEN conjunct2, THEN conjunct2, THEN conjunct2, THEN conjunct2,
      THEN conjunct2] rf
  have "reads (ltrace (run env0 ?bs ?sR)) \<le> Suc (reads (ltrace ?sR))" by blast
  with rr have 6: "reads (ltrace (run env0 ?bs ?sR)) \<le> 1" by simp
  from c f 1 2 3 r0 c0 g0 gf gr 4 5 rf rr 6 show ?thesis by simp
qed

subsection \<open>The gate bounds the running handlers\<close>

lemma gate_inv_loop_step: "gate_inv k m s \<Longrightarrow> gate_inv k m (udpPacketLoop_step E rd s)"
  by (cases "loop_pc s")
     (auto simp: gate_inv_def udpPacketLoop_step_def Let_def acquire_def split: option.splits)

lemma gate_inv_task_step: "gate_inv k m s \<Longrightarrow> gate_inv k m (task_step E i s)"
  by (cases "t_point (tasks s ! i)")
     (auto simp: gate_inv_def task_step_def Let_def release_def)

lemma gate_inv_step: "gate_inv k m s \<Longrightarrow> gate_inv k m (step E a s)"
  by (cases a) (simp_all add: gate_inv_loop_step gate_inv_task_step,
      simp add: gate_inv_def shutdown_step_def)

lemma gate_inv_init:
  "inflight sm \<le> maxCount sm \<Longrightarrow>
     gate_inv (inflight sm) (maxCount sm) (udpPacketLoop_init E p conn sm)"
  by (simp add: gate_inv_def udpPacketLoop_init_def)

lemma gate_inv_run: "gate_inv k m s \<Longrightarrow> gate_inv k m (run E as s)"
  by (rule run_invariant [where P = "gate_inv k m"]) (simp_all add: gate_inv_step)

text \<open>
  C1.  Along every schedule of reads, handler steps and shutdown, started with a
  gate that is not over-full, the number of launched and unfinished handler
  goroutines never exceeds the configured maximum; the slots taken are those
  taken at the start plus one per such goroutine.  A goroutine is added only by
  the loop's step at the gate, which takes a slot first and is suspended while
  the gate is saturated; a handling goroutine moves on to its release whatever
  the handler did; and the release gives back one slot and ends the goroutine.
\<close>

theorem gate_bound:
  assumes "inflight sm \<le> maxCount sm"
    and "s = run E as (udpPacketLoop_init E p conn sm)"
  shows "length (tasks s) \<le> maxCount sm
       \<and> inflight (sema s) = inflight sm + length (tasks s)
       \<and> inflight (sema s) \<le> maxCount sm
       \<and> (\<forall>a lip ra err. loop_pc s = AtAcquire a lip ra err \<longrightarrow>
            (inflight (sema s) < maxCount sm \<longrightarrow>
               length (tasks (step E (Loop rd) s)) = Suc (length (tasks s)) \<and>
               inflight (sema (step E (Loop rd) s)) = Suc (inflight (sema s))) \<and>
            (inflight (sema s) = maxCount sm \<longrightarrow> step E (Loop rd) s = s))
       \<and> (\<forall>x. length (tasks (step E x s)) > length (tasks s) \<longrightarrow>
            (\<exists>a lip ra err rd'. x = Loop rd' \<and> loop_pc s = AtAcquire a lip ra err) \<and>
            inflight (sema (step E x s)) = Suc (inflight (sema s)))
       \<and> (\<forall>i < length (tasks s).
            (t_point (tasks s ! i) = Handling \<longrightarrow>
               tasks (step E (Task i) s) = (tasks s)[i := (tasks s ! i)\<lparr>t_point := Releasing\<rparr>] \<and>
               sema (step E (Task i) s) = sema s) \<and>
            (t_point (tasks s ! i) = Releasing \<longrightarrow>
               tasks (step E (Task i) s) = take i (tasks s) @ drop (Suc i) (tasks s) \<and>
               inflight (sema (step E (Task i) s)) = inflight (sema s) - 1 \<and>
               length (tasks (step E (Task i) s)) = length (tasks s) - 1))"
proof -
  have inv: "gate_inv (inflight sm) (maxCount sm) s"
    unfolding assms(2) by (rule gate_inv_run) (rule gate_inv_init [OF assms(1)])
  have 1: "length (tasks s) \<le> maxCount sm"
    and 2: "inflight (sema s) = inflight sm + length (tasks s)"
    and 3: "inflight (sema s) \<le> maxCount sm"
    and m: "maxCount (sema s) = maxCount sm"
    using inv by (simp_all add: gate_inv_def)
  have 4: "\<forall>a lip ra err. loop_pc s = AtAcquire a lip ra err \<longrightarrow>
            (inflight (sema s) < maxCount sm \<longrightarrow>
               length (tasks (step E (Loop rd) s)) = Suc (length (tasks s)) \<and>
               inflight (sema (step E (Loop rd) s)) = Suc (inflight (sema s))) \<and>
            (inflight (sema s) = maxCount sm \<longrightarrow> step E (Loop rd) s = s)"
    using m by (simp add: udpPacketLoop_step_def acquire_def)
  have 5: "\<forall>x. length (tasks (step E x s)) > length (tasks s) \<longrightarrow>
            (\<exists>a lip ra err rd'. x = Loop rd' \<and> loop_pc s = AtAcquire a lip ra err) \<and>
            inflight (sema (step E x s)) = Suc (inflight (sema s))"
  proof (intro allI impI)
    fix x assume g: "length (tasks (step E x s)) > length (tasks s)"
    show "(\<exists>a lip ra err rd'. x = Loop rd' \<and> loop_pc s = AtAcquire a lip ra err) \<and>
            inflight (sema (step E x s)) = Suc (inflight (sema s))"
    proof (cases x)
      case (Loop rd')
      with g show ?thesis
        by (cases "loop_pc s")
           (auto simp: udpPacketLoop_step_def Let_def acquire_def split: option.splits if_splits)
    next
      case (Task i)
      with g show ?thesis
        by (cases "t_point (tasks s ! i)")
           (auto simp: task_step_def Let_def release_def split: if_splits)
    next
      case Shutdown
      with g show ?thesis by (simp add: shutdown_step_def split: if_splits)
    qed
  qed
  have pos: "i < length (tasks s) \<Longrightarrow> 0 < inflight (sema s)" for i
    using 2 by (cases "tasks s") simp_all
  have 6: "\<forall>i < length (tasks s).
            (t_point (tasks s ! i) = Handling \<longrightarrow>
               tasks (step E (Task i) s) = (tasks s)[i := (tasks s ! i)\<lparr>t_point := Releasing\<rparr>] \<and>
               sema (step E (Task i) s) = sema s) \<and>
            (t_point (tasks s ! i) = Releasing \<longrightarrow>
               tasks (step E (Task i) s) = take i (tasks s) @ drop (Suc i) (tasks s) \<and>
               inflight (sema (step E (Task i) s)) = inflight (sema s) - 1 \<and>
               length (tasks (step E (Task i) s)) = length (tasks s) - 1)"
    using pos by (auto simp: task_step_def Let_def release_def)
  from 1 2 3 4 5 6 show ?thesis by blast
qed

theorem gate_bound_witness:
  "inflight sema0 \<le> maxCount sema0
   \<and> maxCount sema0 = 1
   \<and> length (tasks (run env0
        [Loop rd0, Loop rd0, Loop rd0, Loop rd0, Loop rd0, Loop rd0, Loop rd0, Task 0] state0)) = 1
   \<and> loop_pc (run env0
        [Loop rd0, Loop rd0, Loop rd0, Loop rd0, Loop rd0, Loop rd0, Loop rd0, Task 0] state0)
       = AtAcquire 2 [127, 0, 0, 1] ([10, 0, 0, 1], 4000) None"
proof -
  let ?as = "[Loop rd0, Loop rd0, Loop rd0, Loop rd0, Loop rd0, Loop rd0, Loop rd0, Task 0]"
  have h: "inflight sema0 \<le> maxCount sema0" by (simp add: sema0_def)
  have e: "run env0 ?as state0 = run env0 ?as (udpPacketLoop_init env0 proxy0 0 sema0)"
    by (simp only: state0_def)
  have 1: "length (tasks (run env0 ?as state0)) = 1" by (simp add: state0_def env0_def proxy0_def sema0_def rd0_def
      udpPacketLoop_init_def udpPacketLoop_step_def task_step_def shutdown_step_def
      RLock_def RUnlock_def acquire_def release_def go_copy_def go_make_def Let_def
      udpHandlePacket_def)
  have 2: "loop_pc (run env0 ?as state0) = AtAcquire 2 [127, 0, 0, 1] ([10, 0, 0, 1], 4000) None"
    by (simp add: state0_def env0_def proxy0_def sema0_def rd0_def
      udpPacketLoop_init_def udpPacketLoop_step_def task_step_def shutdown_step_def
      RLock_def RUnlock_def acquire_def release_def go_copy_def go_make_def Let_def
      udpHandlePacket_def)
  from gate_bound [OF h e, of rd0] h 1 2 show ?thesis by (simp add: sema0_def)
qed

subsection \<open>The handler owns its packet\<close>

lemma heap_inv_loop_step: "heap_inv m s \<Longrightarrow> heap_inv m (udpPacketLoop_step E rd s)"
  by (cases "loop_pc s")
     (auto simp: heap_inv_def udpPacketLoop_step_def Let_def acquire_def nth_append length_go_copy
        less_Suc_eq split: option.splits)

lemma heap_inv_task_step: "heap_inv m s \<Longrightarrow> heap_inv m (task_step E i s)"
proof (cases "i < length (tasks s)")
  case False
  assume "heap_inv m s"
  with False show ?thesis by (simp add: task_step_def)
next
  case True
  assume h: "heap_inv m s"
  show ?thesis
  proof (cases "t_point (tasks s ! i)")
    case Handling
    have "set ((tasks s)[i := (tasks s ! i)\<lparr>t_point := Releasing\<rparr>])
            \<subseteq> insert ((tasks s ! i)\<lparr>t_point := Releasing\<rparr>) (set (tasks s))"
      by (rule set_update_subset_insert)
    moreover have "tasks s ! i \<in> set (tasks s)" using True by simp
    ultimately show ?thesis using h True Handling
      by (auto simp: heap_inv_def task_step_def Let_def split: loop_point.splits)
  next
    case Releasing
    show ?thesis using h True Releasing set_remove_nth [of i "tasks s"]
      by (auto simp: heap_inv_def task_step_def Let_def release_def split: loop_point.splits)
  qed
qed

lemma heap_inv_step: "heap_inv m s \<Longrightarrow> heap_inv m (step E a s)"
  by (cases a) (simp_all add: heap_inv_loop_step heap_inv_task_step,
      simp add: heap_inv_def shutdown_step_def split: loop_point.splits)

lemma heap_inv_init: "heap_inv (MaxMsgSize E) (udpPacketLoop_init E p conn sm)"
  by (simp add: heap_inv_def udpPacketLoop_init_def go_make_def)

lemma heap_inv_run: "heap_inv m s \<Longrightarrow> heap_inv m (run E as s)"
  by (rule run_invariant [where P = "heap_inv m"]) (simp_all add: heap_inv_step)

lemma keeps_step: "keeps a v s \<Longrightarrow> keeps a v (step E x s)"
proof (cases x)
  case (Loop rd)
  assume "keeps a v s"
  with Loop show ?thesis
    by (cases "loop_pc s")
       (auto simp: keeps_def udpPacketLoop_step_def Let_def nth_append split: option.splits)
next
  case (Task i)
  assume "keeps a v s"
  with Task show ?thesis
    by (cases "t_point (tasks s ! i)")
       (auto simp: keeps_def task_step_def Let_def split: option.splits)
next
  case Shutdown
  assume "keeps a v s"
  with Shutdown show ?thesis by (simp add: keeps_def shutdown_step_def)
qed

lemma keeps_run: "keeps a v s \<Longrightarrow> keeps a v (run E as s)"
  by (rule run_invariant [where P = "keeps a v"]) (simp_all add: keeps_step)

text \<open>
  C2.  In a reachable state at the read, a read returning \<open>n > 0\<close> allocates a
  new buffer of exactly \<open>n\<close> bytes at a fresh address, different from the
  loop's buffer, holding the first \<open>n\<close> bytes of the loop's buffer (\<open>n\<close> being
  at most the buffer's size), before any goroutine is launched.  The goroutine
  launched at the gate holds that address.  Whatever runs afterwards, later reads
  included, the copy keeps its contents, no goroutine holds the address of the
  loop's buffer, and the handler of the goroutine holding the copy is run on the
  bytes that were copied.
\<close>

theorem packet_is_private_copy:
  assumes "s = run E as (udpPacketLoop_init E p conn sm)"
    and "loop_pc s = AtRead" and "0 < rd_n rd"
    and "s1 = step E (Loop rd) s" and "a = length (heap s)"
  shows "loop_pc s1 = AtAcquire a (rd_localIP rd) (rd_remoteAddr rd) (rd_err rd)
       \<and> a \<noteq> loop_b s1 \<and> length (heap s1) = Suc a \<and> tasks s1 = tasks s
       \<and> length (heap s1 ! a) = nat (rd_n rd)
       \<and> (nat (rd_n rd) \<le> MaxMsgSize E \<longrightarrow>
            heap s1 ! a = take (nat (rd_n rd)) (heap s1 ! loop_b s1))
       \<and> (inflight (sema s1) < maxCount (sema s1) \<longrightarrow>
            tasks (step E (Loop rd') s1) =
              tasks s1 @ [\<lparr>t_packet = a, t_localIP = rd_localIP rd,
                           t_remoteAddr = rd_remoteAddr rd, t_conn = loop_conn s,
                           t_point = Handling\<rparr>])
       \<and> (\<forall>bs. heap (run E bs s1) ! a = heap s1 ! a \<and>
                (\<forall>t \<in> set (tasks (run E bs s1)). t_packet t \<noteq> loop_b (run E bs s1)))
       \<and> (\<forall>bs i. i < length (tasks (run E bs s1)) \<and>
                 t_packet (tasks (run E bs s1) ! i) = a \<and>
                 t_point (tasks (run E bs s1) ! i) = Handling \<longrightarrow>
             ttrace (step E (Task i) (run E bs s1)) =
               udpHandlePacket E (heap s1 ! a) (t_localIP (tasks (run E bs s1) ! i))
                 (t_remoteAddr (tasks (run E bs s1) ! i)) (t_conn (tasks (run E bs s1) ! i))
                 (ttrace (run E bs s1)))"
proof -
  have inv: "heap_inv (MaxMsgSize E) s"
    unfolding assms(1) by (rule heap_inv_run) (rule heap_inv_init)
  have inv1: "heap_inv (MaxMsgSize E) s1"
    unfolding assms(4) by (rule heap_inv_step) (rule inv)
  have b: "loop_b s < length (heap s)" and lb: "length (heap s ! loop_b s) = MaxMsgSize E"
    using inv by (simp_all add: heap_inv_def)
  have 1: "loop_pc s1 = AtAcquire a (rd_localIP rd) (rd_remoteAddr rd) (rd_err rd)"
    and 2: "length (heap s1) = Suc a" and 3: "tasks s1 = tasks s"
    and lb1: "loop_b s1 = loop_b s" and c1: "loop_conn s1 = loop_conn s"
    and pk: "heap s1 ! a = go_copy (go_make (nat (rd_n rd))) (heap s1 ! loop_b s1)"
    using assms(2,3,4,5) b by (simp_all add: udpPacketLoop_step_def Let_def nth_append)
  have 4: "a \<noteq> loop_b s1" using b lb1 assms(5) by simp
  have 5: "length (heap s1 ! a) = nat (rd_n rd)"
    by (simp add: pk length_go_copy go_make_def)
  have lb1': "length (heap s1 ! loop_b s1) = MaxMsgSize E"
    using inv1 by (simp add: heap_inv_def)
  have 6: "nat (rd_n rd) \<le> MaxMsgSize E \<longrightarrow>
            heap s1 ! a = take (nat (rd_n rd)) (heap s1 ! loop_b s1)"
    by (simp add: pk go_copy_make lb1')
  have 7: "inflight (sema s1) < maxCount (sema s1) \<longrightarrow>
            tasks (step E (Loop rd') s1) =
              tasks s1 @ [\<lparr>t_packet = a, t_localIP = rd_localIP rd,
                           t_remoteAddr = rd_remoteAddr rd, t_conn = loop_conn s,
                           t_point = Handling\<rparr>]"
    using 1 c1 by (simp add: udpPacketLoop_step_def acquire_def)
  have k: "keeps a (heap s1 ! a) s1"
    using 2 4 by (simp add: keeps_def)
  have 8: "\<forall>bs. heap (run E bs s1) ! a = heap s1 ! a \<and>
                (\<forall>t \<in> set (tasks (run E bs s1)). t_packet t \<noteq> loop_b (run E bs s1))"
  proof
    fix bs
    from keeps_run [OF k, of E bs] have "heap (run E bs s1) ! a = heap s1 ! a"
      by (simp add: keeps_def)
    moreover from heap_inv_run [OF inv1, of E bs]
    have "\<forall>t \<in> set (tasks (run E bs s1)). t_packet t \<noteq> loop_b (run E bs s1)"
      by (simp add: heap_inv_def)
    ultimately show "heap (run E bs s1) ! a = heap s1 ! a \<and>
                (\<forall>t \<in> set (tasks (run E bs s1)). t_packet t \<noteq> loop_b (run E bs s1))" ..
  qed
  have 9: "\<forall>bs i. i < length (tasks (run E bs s1)) \<and>
                 t_packet (tasks (run E bs s1) ! i) = a \<and>
                 t_point (tasks (run E bs s1) ! i) = Handling \<longrightarrow>
             ttrace (step E (Task i) (run E bs s1)) =
               udpHandlePacket E (heap s1 ! a) (t_localIP (tasks (run E bs s1) ! i))
                 (t_remoteAddr (tasks (run E bs s1) ! i)) (t_conn (tasks (run E bs s1) ! i))
                 (ttrace (run E bs s1))"
  proof (intro allI impI)
    fix bs i
    assume h: "i < length (tasks (run E bs s1)) \<and>
                 t_packet (tasks (run E bs s1) ! i) = a \<and>
                 t_point (tasks (run E bs s1) ! i) = Handling"
    from 8 have "heap (run E bs s1) ! a = heap s1 ! a" by blast
    with h show "ttrace (step E (Task i) (run E bs s1)) =
               udpHandlePacket E (heap s1 ! a) (t_localIP (tasks (run E bs s1) ! i))
                 (t_remoteAddr (tasks (run E bs s1) ! i)) (t_conn (tasks (run E bs s1) ! i))
                 (ttrace (run E bs s1))"
      by (simp add: task_step_def Let_def)
  qed
  from 1 2 3 4 5 6 7 8 9 show ?thesis by blast
qed

theorem packet_is_private_copy_witness:
  "loop_pc (run env0 [Loop rd0] state0) = AtRead \<and> 0 < rd_n rd0
   \<and> heap (step env0 (Loop rd0) (run env0 [Loop rd0] state0)) = [[7, 9, 0, 0], [7, 9]]
   \<and> heap (run env0 [Loop rd0, Loop rd0, Loop rd0, Loop rd1]
             (step env0 (Loop rd0) (run env0 [Loop rd0] state0))) ! 0 = [1, 1, 1, 0]
   \<and> heap (run env0 [Loop rd0, Loop rd0, Loop rd0, Loop rd1]
             (step env0 (Loop rd0) (run env0 [Loop rd0] state0))) ! 1 = [7, 9]
   \<and> ttrace (step env0 (Task 0) (run env0 [Loop rd0, Loop rd0, Loop rd0, Loop rd1]
             (step env0 (Loop rd0) (run env0 [Loop rd0] state0)))) =
       [EvLog ''Start handling new UDP packet from %s'',
        EvWrite 0 ([10, 0, 0, 1], 4000) [127, 0, 0, 1] [7, 9]]"
proof -
  let ?s = "run env0 [Loop rd0] state0"
  let ?s1 = "step env0 (Loop rd0) ?s"
  let ?bs = "[Loop rd0, Loop rd0, Loop rd0, Loop rd1]"
  have r: "?s = run env0 [Loop rd0] (udpPacketLoop_init env0 proxy0 0 sema0)"
    by (simp only: state0_def)
  have p: "loop_pc ?s = AtRead" by (simp add: state0_def env0_def proxy0_def sema0_def rd0_def rd1_def closedErr_def
      udpPacketLoop_init_def udpPacketLoop_step_def task_step_def shutdown_step_def
      RLock_def RUnlock_def acquire_def release_def go_copy_def go_make_def Let_def
      udpHandlePacket_def)
  have n: "0 < rd_n rd0" by (simp add: rd0_def)
  have a: "1 = length (heap ?s)" by (simp add: state0_def env0_def proxy0_def sema0_def rd0_def rd1_def closedErr_def
      udpPacketLoop_init_def udpPacketLoop_step_def task_step_def shutdown_step_def
      RLock_def RUnlock_def acquire_def release_def go_copy_def go_make_def Let_def
      udpHandlePacket_def)
  have h1: "heap ?s1 = [[7, 9, 0, 0], [7, 9]]" by (simp add: state0_def env0_def proxy0_def sema0_def rd0_def rd1_def closedErr_def
      udpPacketLoop_init_def udpPacketLoop_step_def task_step_def shutdown_step_def
      RLock_def RUnlock_def acquire_def release_def go_copy_def go_make_def Let_def
      udpHandlePacket_def eval_nat_numeral)
  have h0: "heap (run env0 ?bs ?s1) ! 0 = [1, 1, 1, 0]"
    by (simp add: state0_def env0_def proxy0_def sema0_def rd0_def rd1_def closedErr_def
      udpPacketLoop_init_def udpPacketLoop_step_def task_step_def shutdown_step_def
      RLock_def RUnlock_def acquire_def release_def go_copy_def go_make_def Let_def
      udpHandlePacket_def eval_nat_numeral)
  have t: "tasks (run env0 ?bs ?s1) =
             [\<lparr>t_packet = 1, t_localIP = [127, 0, 0, 1], t_remoteAddr = ([10, 0, 0, 1], 4000),
               t_conn = 0, t_point = Handling\<rparr>]"
    and tt: "ttrace (run env0 ?bs ?s1) = []"
    by (simp_all add: state0_def env0_def proxy0_def sema0_def rd0_def rd1_def closedErr_def
      udpPacketLoop_init_def udpPacketLoop_step_def task_step_def shutdown_step_def
      RLock_def RUnlock_def acquire_def release_def go_copy_def go_make_def Let_def
      udpHandlePacket_def)
  note c = packet_is_private_copy [OF r p n refl a, of rd0]
  from c have k: "heap (run env0 ?bs ?s1) ! 1 = heap ?s1 ! 1" by blast
  from c have
    "0 < length (tasks (run env0 ?bs ?s1)) \<and> t_packet (tasks (run env0 ?bs ?s1) ! 0) = 1 \<and>
       t_point (tasks (run env0 ?bs ?s1) ! 0) = Handling \<longrightarrow>
     ttrace (step env0 (Task 0) (run env0 ?bs ?s1)) =
       udpHandlePacket env0 (heap ?s1 ! 1) (t_localIP (tasks (run env0 ?bs ?s1) ! 0))
         (t_remoteAddr (tasks (run env0 ?bs ?s1) ! 0)) (t_conn (tasks (run env0 ?bs ?s1) ! 0))
         (ttrace (run env0 ?bs ?s1))"
    by blast
  then have "ttrace (step env0 (Task 0) (run env0 ?bs ?s1)) =
       udpHandlePacket env0 [7, 9] [127, 0, 0, 1] ([10, 0, 0, 1], 4000) 0 []"
    by (simp only: t tt h1) simp
  then have w: "ttrace (step env0 (Task 0) (run env0 ?bs ?s1)) =
       [EvLog ''Start handling new UDP packet from %s'',
        EvWrite 0 ([10, 0, 0, 1], 4000) [127, 0, 0, 1] [7, 9]]"
    by (simp add: udpHandlePacket_def env0_def Let_def)
  from k h1 have "heap (run env0 ?bs ?s1) ! 1 = [7, 9]" by simp
  with p n h1 h0 w show ?thesis by blast
qed

subsection \<open>A datagram delivered with an error\<close>

lemma received_dispatched_step:
  assumes "loop_pc s1 = AtAcquire a lip ra (Some e)" and "received_dispatched E s1 a e s2"
  shows "received_dispatched E s1 a e (step E x s2)"
proof (cases x)
  case (Loop rd)
  with assms show ?thesis
    by (cases "loop_pc s2")
       (auto simp: received_dispatched_def udpPacketLoop_step_def Let_def acquire_def
          split: option.splits)
next
  case (Task i)
  with assms show ?thesis
    by (cases "t_point (tasks s2 ! i)")
       (auto simp: received_dispatched_def task_step_def Let_def split: option.splits)
next
  case Shutdown
  with assms show ?thesis by (simp add: received_dispatched_def shutdown_step_def)
qed

lemma received_dispatched_run:
  assumes "loop_pc s1 = AtAcquire a lip ra (Some e)"
  shows "received_dispatched E s1 a e (run E bs s1)"
  by (rule run_invariant [where P = "received_dispatched E s1 a e"])
     (simp_all add: received_dispatched_step [OF assms], simp add: received_dispatched_def)

text \<open>At the gate, a step either launches the handler of the waiting packet,
  which needs a free slot, or leaves the loop where it is.\<close>

lemma gate_step:
  assumes "loop_pc s2 = AtAcquire a lip ra err"
  shows "(\<exists>rd'. x = Loop rd') \<and> inflight (sema s2) < maxCount (sema s2) \<and>
           tasks (step E x s2) = tasks s2 @ [handler_of a lip ra (loop_conn s2)] \<and>
           loop_pc (step E x s2) = AtErr err \<and> ltrace (step E x s2) = ltrace s2 @ [EvGo a] \<and>
           heap (step E x s2) = heap s2
         \<or> loop_pc (step E x s2) = loop_pc s2 \<and> ltrace (step E x s2) = ltrace s2 \<and>
           heap (step E x s2) = heap s2 \<and>
           \<not> ((\<exists>rd'. x = Loop rd') \<and> inflight (sema s2) < maxCount (sema s2))"
proof (cases x)
  case (Loop rd')
  with assms show ?thesis
    by (simp add: udpPacketLoop_step_def acquire_def handler_of_def)
next
  case (Task i)
  with assms show ?thesis
    by (cases "t_point (tasks s2 ! i)")
       (auto simp: task_step_def Let_def split: option.splits)
next
  case Shutdown
  with assms show ?thesis by (simp add: shutdown_step_def)
qed

lemma past_gate_step:
  assumes "loop_pc s2 = AtErr (Some e) \<or> loop_pc s2 = Exited"
  shows "loop_pc (step E x s2) = AtErr (Some e) \<or> loop_pc (step E x s2) = Exited"
proof (cases x)
  case (Loop rd')
  with assms show ?thesis by (auto simp: udpPacketLoop_step_def)
next
  case (Task i)
  with assms show ?thesis
    by (cases "t_point (tasks s2 ! i)")
       (auto simp: task_step_def Let_def split: option.splits)
next
  case Shutdown
  with assms show ?thesis by (simp add: shutdown_step_def)
qed

text \<open>Along a schedule started at the gate: the loop is still there with the
  heap cell of the packet untouched, or the schedule contains the step that
  launched the handler of the packet.\<close>

lemma launched_or_waiting:
  assumes g: "loop_pc s1 = AtAcquire a lip ra (Some e)"
  shows "loop_pc (run E bs s1) = loop_pc s1
       \<or> (\<exists>bs1 rd' bs2. bs = bs1 @ Loop rd' # bs2 \<and>
            loop_pc (run E bs1 s1) = loop_pc s1 \<and>
            inflight (sema (run E bs1 s1)) < maxCount (sema (run E bs1 s1)) \<and>
            tasks (run E (bs1 @ [Loop rd']) s1) =
              tasks (run E bs1 s1) @ [handler_of a lip ra (loop_conn (run E bs1 s1))] \<and>
            (loop_pc (run E bs s1) = AtErr (Some e) \<or> loop_pc (run E bs s1) = Exited))"
proof (induction bs rule: rev_induct)
  case Nil
  show ?case by simp
next
  case (snoc x bs)
  let ?s2 = "run E bs s1"
  from snoc.IH show ?case
  proof
    assume w: "loop_pc ?s2 = loop_pc s1"
    with g have g2: "loop_pc ?s2 = AtAcquire a lip ra (Some e)" by simp
    from gate_step [OF g2, of x E] show ?thesis
    proof
      assume l: "(\<exists>rd'. x = Loop rd') \<and> inflight (sema ?s2) < maxCount (sema ?s2) \<and>
           tasks (step E x ?s2) = tasks ?s2 @ [handler_of a lip ra (loop_conn ?s2)] \<and>
           loop_pc (step E x ?s2) = AtErr (Some e) \<and>
           ltrace (step E x ?s2) = ltrace ?s2 @ [EvGo a] \<and> heap (step E x ?s2) = heap ?s2"
      then obtain rd' where x: "x = Loop rd'" by blast
      have "bs @ [x] = bs @ Loop rd' # [] \<and>
            loop_pc (run E bs s1) = loop_pc s1 \<and>
            inflight (sema (run E bs s1)) < maxCount (sema (run E bs s1)) \<and>
            tasks (run E (bs @ [Loop rd']) s1) =
              tasks (run E bs s1) @ [handler_of a lip ra (loop_conn (run E bs s1))] \<and>
            (loop_pc (run E (bs @ [x]) s1) = AtErr (Some e) \<or>
             loop_pc (run E (bs @ [x]) s1) = Exited)"
        using l w x by (simp add: run_snoc)
      then show ?thesis by blast
    next
      assume "loop_pc (step E x ?s2) = loop_pc ?s2 \<and> ltrace (step E x ?s2) = ltrace ?s2 \<and>
           heap (step E x ?s2) = heap ?s2 \<and>
           \<not> ((\<exists>rd'. x = Loop rd') \<and> inflight (sema ?s2) < maxCount (sema ?s2))"
      with w show ?thesis by (simp add: run_snoc)
    qed
  next
    assume "\<exists>bs1 rd' bs2. bs = bs1 @ Loop rd' # bs2 \<and>
            loop_pc (run E bs1 s1) = loop_pc s1 \<and>
            inflight (sema (run E bs1 s1)) < maxCount (sema (run E bs1 s1)) \<and>
            tasks (run E (bs1 @ [Loop rd']) s1) =
              tasks (run E bs1 s1) @ [handler_of a lip ra (loop_conn (run E bs1 s1))] \<and>
            (loop_pc (run E bs s1) = AtErr (Some e) \<or> loop_pc (run E bs s1) = Exited)"
    then obtain bs1 rd' bs2 where
      d: "bs = bs1 @ Loop rd' # bs2" "loop_pc (run E bs1 s1) = loop_pc s1"
         "inflight (sema (run E bs1 s1)) < maxCount (sema (run E bs1 s1))"
         "tasks (run E (bs1 @ [Loop rd']) s1) =
              tasks (run E bs1 s1) @ [handler_of a lip ra (loop_conn (run E bs1 s1))]"
      and pg: "loop_pc ?s2 = AtErr (Some e) \<or> loop_pc ?s2 = Exited"
      by blast
    from past_gate_step [OF pg, of E x]
    have "loop_pc (run E (bs @ [x]) s1) = AtErr (Some e) \<or>
          loop_pc (run E (bs @ [x]) s1) = Exited"
      by (simp add: run_snoc)
    moreover have "bs @ [x] = bs1 @ Loop rd' # (bs2 @ [x])" using d(1) by simp
    ultimately show ?thesis using d(2,3,4) by blast
  qed
qed

text \<open>
  C5.  In a reachable state at the read, a read returning \<open>n > 0\<close> bytes together
  with an error \<open>e\<close> copies the bytes and goes to the gate, not to the error
  check.  At the gate every step either launches the handler goroutine of the
  packet, which takes a free slot, or leaves the loop at the gate; with the gate
  saturated the loop's step changes nothing.  So along every schedule the copy
  keeps its contents, and the loop is either still at the gate or the schedule
  contains the step that appended the handler of the packet to the running
  goroutines, after which the loop is at the error check with \<open>e\<close> or has
  logged the error and left.
\<close>

theorem datagram_with_error_dispatched:
  assumes "s = run E as (udpPacketLoop_init E p conn sm)"
    and "loop_pc s = AtRead" and "0 < rd_n rd" and "rd_err rd = Some e"
    and "s1 = step E (Loop rd) s" and "a = length (heap s)"
  shows "loop_pc s1 = AtAcquire a (rd_localIP rd) (rd_remoteAddr rd) (Some e)
       \<and> ltrace s1 = ltrace s @ [EvRead (loop_conn s)]
       \<and> length (heap s1 ! a) = nat (rd_n rd)
       \<and> (nat (rd_n rd) \<le> MaxMsgSize E \<longrightarrow>
            heap s1 ! a = take (nat (rd_n rd)) (heap s1 ! loop_b s1))
       \<and> (\<forall>bs. received_dispatched E s1 a e (run E bs s1))
       \<and> (\<forall>s2. loop_pc s2 = loop_pc s1 \<and> inflight (sema s2) < maxCount (sema s2) \<longrightarrow>
             tasks (step E (Loop rd') s2) =
               tasks s2 @ [\<lparr>t_packet = a, t_localIP = rd_localIP rd,
                            t_remoteAddr = rd_remoteAddr rd, t_conn = loop_conn s2,
                            t_point = Handling\<rparr>] \<and>
             loop_pc (step E (Loop rd') s2) = AtErr (Some e))
       \<and> (\<forall>s2. loop_pc s2 = AtErr (Some e) \<longrightarrow> loop_pc (step E (Loop rd') s2) = Exited)
       \<and> (\<forall>s2. loop_pc s2 = loop_pc s1 \<and> \<not> inflight (sema s2) < maxCount (sema s2) \<longrightarrow>
             step E (Loop rd') s2 = s2)
       \<and> (\<forall>s2 x. loop_pc s2 = loop_pc s1 \<longrightarrow>
             (\<exists>r. x = Loop r) \<and> inflight (sema s2) < maxCount (sema s2) \<and>
               tasks (step E x s2) =
                 tasks s2 @ [handler_of a (rd_localIP rd) (rd_remoteAddr rd) (loop_conn s2)] \<and>
               loop_pc (step E x s2) = AtErr (Some e)
             \<or> loop_pc (step E x s2) = loop_pc s1 \<and> heap (step E x s2) = heap s2 \<and>
               \<not> ((\<exists>r. x = Loop r) \<and> inflight (sema s2) < maxCount (sema s2)))
       \<and> (\<forall>bs. heap (run E bs s1) ! a = heap s1 ! a \<and>
             (loop_pc (run E bs s1) = loop_pc s1
              \<or> (\<exists>bs1 r bs2. bs = bs1 @ Loop r # bs2 \<and>
                   loop_pc (run E bs1 s1) = loop_pc s1 \<and>
                   inflight (sema (run E bs1 s1)) < maxCount (sema (run E bs1 s1)) \<and>
                   tasks (run E (bs1 @ [Loop r]) s1) =
                     tasks (run E bs1 s1) @
                       [handler_of a (rd_localIP rd) (rd_remoteAddr rd)
                          (loop_conn (run E bs1 s1))] \<and>
                   (loop_pc (run E bs s1) = AtErr (Some e) \<or>
                    loop_pc (run E bs s1) = Exited))))"
proof -
  have inv: "heap_inv (MaxMsgSize E) s"
    unfolding assms(1) by (rule heap_inv_run) (rule heap_inv_init)
  have inv1: "heap_inv (MaxMsgSize E) s1"
    unfolding assms(5) by (rule heap_inv_step) (rule inv)
  have b: "loop_b s < length (heap s)"
    using inv by (simp add: heap_inv_def)
  have 1: "loop_pc s1 = AtAcquire a (rd_localIP rd) (rd_remoteAddr rd) (Some e)"
    and 2: "ltrace s1 = ltrace s @ [EvRead (loop_conn s)]"
    and pk: "heap s1 ! a = go_copy (go_make (nat (rd_n rd))) (heap s1 ! loop_b s1)"
    and la: "length (heap s1) = Suc a" and lb: "loop_b s1 = loop_b s"
    using assms(2-6) b by (simp_all add: udpPacketLoop_step_def Let_def nth_append)
  have 3: "length (heap s1 ! a) = nat (rd_n rd)"
    by (simp add: pk length_go_copy go_make_def)
  have lb1: "length (heap s1 ! loop_b s1) = MaxMsgSize E"
    using inv1 by (simp add: heap_inv_def)
  have 4: "nat (rd_n rd) \<le> MaxMsgSize E \<longrightarrow>
            heap s1 ! a = take (nat (rd_n rd)) (heap s1 ! loop_b s1)"
    by (simp add: pk go_copy_make lb1)
  have 5: "\<forall>bs. received_dispatched E s1 a e (run E bs s1)"
    using received_dispatched_run [OF 1] by blast
  have 6: "\<forall>s2. loop_pc s2 = loop_pc s1 \<and> inflight (sema s2) < maxCount (sema s2) \<longrightarrow>
             tasks (step E (Loop rd') s2) =
               tasks s2 @ [\<lparr>t_packet = a, t_localIP = rd_localIP rd,
                            t_remoteAddr = rd_remoteAddr rd, t_conn = loop_conn s2,
                            t_point = Handling\<rparr>] \<and>
             loop_pc (step E (Loop rd') s2) = AtErr (Some e)"
    using 1 by (simp add: udpPacketLoop_step_def acquire_def)
  have 7: "\<forall>s2. loop_pc s2 = AtErr (Some e) \<longrightarrow> loop_pc (step E (Loop rd') s2) = Exited"
    by (simp add: udpPacketLoop_step_def)
  have 8: "\<forall>s2. loop_pc s2 = loop_pc s1 \<and> \<not> inflight (sema s2) < maxCount (sema s2) \<longrightarrow>
             step E (Loop rd') s2 = s2"
    using 1 by (simp add: udpPacketLoop_step_def acquire_def)
  have 9: "\<forall>s2 x. loop_pc s2 = loop_pc s1 \<longrightarrow>
             (\<exists>r. x = Loop r) \<and> inflight (sema s2) < maxCount (sema s2) \<and>
               tasks (step E x s2) =
                 tasks s2 @ [handler_of a (rd_localIP rd) (rd_remoteAddr rd) (loop_conn s2)] \<and>
               loop_pc (step E x s2) = AtErr (Some e)
             \<or> loop_pc (step E x s2) = loop_pc s1 \<and> heap (step E x s2) = heap s2 \<and>
               \<not> ((\<exists>r. x = Loop r) \<and> inflight (sema s2) < maxCount (sema s2))"
  proof (intro allI impI)
    fix s2 :: state and x :: action
    assume "loop_pc s2 = loop_pc s1"
    with 1 have g: "loop_pc s2 = AtAcquire a (rd_localIP rd) (rd_remoteAddr rd) (Some e)"
      and eq: "loop_pc s1 = loop_pc s2"
      by simp_all
    from gate_step [OF g, of x E]
    show "(\<exists>r. x = Loop r) \<and> inflight (sema s2) < maxCount (sema s2) \<and>
               tasks (step E x s2) =
                 tasks s2 @ [handler_of a (rd_localIP rd) (rd_remoteAddr rd) (loop_conn s2)] \<and>
               loop_pc (step E x s2) = AtErr (Some e)
             \<or> loop_pc (step E x s2) = loop_pc s1 \<and> heap (step E x s2) = heap s2 \<and>
               \<not> ((\<exists>r. x = Loop r) \<and> inflight (sema s2) < maxCount (sema s2))"
      unfolding eq by blast
  qed
  have k: "keeps a (heap s1 ! a) s1"
    using la lb b assms(6) by (simp add: keeps_def)
  have 10: "\<forall>bs. heap (run E bs s1) ! a = heap s1 ! a \<and>
             (loop_pc (run E bs s1) = loop_pc s1
              \<or> (\<exists>bs1 r bs2. bs = bs1 @ Loop r # bs2 \<and>
                   loop_pc (run E bs1 s1) = loop_pc s1 \<and>
                   inflight (sema (run E bs1 s1)) < maxCount (sema (run E bs1 s1)) \<and>
                   tasks (run E (bs1 @ [Loop r]) s1) =
                     tasks (run E bs1 s1) @
                       [handler_of a (rd_localIP rd) (rd_remoteAddr rd)
                          (loop_conn (run E bs1 s1))] \<and>
                   (loop_pc (run E bs s1) = AtErr (Some e) \<or>
                    loop_pc (run E bs s1) = Exited)))"
  proof
    fix bs
    from keeps_run [OF k, of E bs] have "heap (run E bs s1) ! a = heap s1 ! a"
      by (simp add: keeps_def)
    with launched_or_waiting [OF 1, of E bs]
    show "heap (run E bs s1) ! a = heap s1 ! a \<and>
             (loop_pc (run E bs s1) = loop_pc s1
              \<or> (\<exists>bs1 r bs2. bs = bs1 @ Loop r # bs2 \<and>
                   loop_pc (run E bs1 s1) = loop_pc s1 \<and>
                   inflight (sema (run E bs1 s1)) < maxCount (sema (run E bs1 s1)) \<and>
                   tasks (run E (bs1 @ [Loop r]) s1) =
                     tasks (run E bs1 s1) @
                       [handler_of a (rd_localIP rd) (rd_remoteAddr rd)
                          (loop_conn (run E bs1 s1))] \<and>
                   (loop_pc (run E bs s1) = AtErr (Some e) \<or>
                    loop_pc (run E bs s1) = Exited)))"
      by blast
  qed
  from 1 2 3 4 5 6 7 8 9 10 show ?thesis by blast
qed

theorem datagram_with_error_dispatched_witness:
  "loop_pc satState = AtRead \<and> 0 < rd_n rd1 \<and> rd_err rd1 = Some closedErr
   \<and> inflight (sema satState) = maxCount (sema satState)
   \<and> map t_packet (tasks (step env0 (Loop rd1) satState)) = [1]
   \<and> step env0 (Loop rd0) (step env0 (Loop rd1) satState) = step env0 (Loop rd1) satState
   \<and> map t_packet (tasks (run env0 [Loop rd0, Task 0, Task 0, Loop rd0]
        (step env0 (Loop rd1) satState))) = [2]
   \<and> loop_pc (run env0 [Loop rd0, Task 0, Task 0, Loop rd0, Loop rd0]
        (step env0 (Loop rd1) satState)) = Exited
   \<and> heap (run env0 [Loop rd0, Task 0, Task 0, Loop rd0, Loop rd0]
        (step env0 (Loop rd1) satState)) ! 2 = [1, 1, 1]
   \<and> ltrace (run env0 [Loop rd0, Task 0, Task 0, Loop rd0, Loop rd0]
        (step env0 (Loop rd1) satState)) =
       [EvLog ''Entering the UDP listener loop on %s'', EvRead 0, EvGo 1, EvRead 0, EvGo 2,
        EvLog ''udpListen.ReadFrom() returned because we're reading from a closed connection, exiting loop'']"
proof -
  let ?s1 = "step env0 (Loop rd1) satState"
  let ?bs = "[Loop rd0, Task 0, Task 0, Loop rd0, Loop rd0]"
  note ev = satState_def state0_def env0_def proxy0_def sema0_def rd0_def rd1_def closedErr_def
      udpPacketLoop_init_def udpPacketLoop_step_def task_step_def shutdown_step_def
      RLock_def RUnlock_def acquire_def release_def go_copy_def go_make_def Let_def
      udpHandlePacket_def
  have r: "satState = run env0 [Loop rd0, Loop rd0, Loop rd0, Loop rd0, Loop rd0]
             (udpPacketLoop_init env0 proxy0 0 sema0)"
    by (simp only: satState_def state0_def)
  have p: "loop_pc satState = AtRead" by (simp add: ev)
  have n: "0 < rd_n rd1" and e: "rd_err rd1 = Some closedErr" by (simp_all add: rd1_def)
  have a: "2 = length (heap satState)" by (simp add: ev)
  have sat: "inflight (sema satState) = maxCount (sema satState)" by (simp add: ev)
  have sat1: "\<not> inflight (sema ?s1) < maxCount (sema ?s1)" by (simp add: ev)
  have t1: "map t_packet (tasks ?s1) = [1]" by (simp add: ev)
  note c = datagram_with_error_dispatched [OF r p n e refl a, of rd0]
  from c sat1 have blocked: "step env0 (Loop rd0) ?s1 = ?s1" by blast
  from c have "heap (run env0 ?bs ?s1) ! 2 = heap ?s1 ! 2" by blast
  moreover have "heap ?s1 ! 2 = [1, 1, 1]" by (simp add: ev eval_nat_numeral)
  ultimately have h: "heap (run env0 ?bs ?s1) ! 2 = [1, 1, 1]" by simp
  have t2: "map t_packet (tasks (run env0 [Loop rd0, Task 0, Task 0, Loop rd0] ?s1)) = [2]"
    by (simp add: ev)
  have x: "loop_pc (run env0 ?bs ?s1) = Exited" by (simp add: ev)
  have l: "ltrace (run env0 ?bs ?s1) =
       [EvLog ''Entering the UDP listener loop on %s'', EvRead 0, EvGo 1, EvRead 0, EvGo 2,
        EvLog ''udpListen.ReadFrom() returned because we're reading from a closed connection, exiting loop'']"
    by (simp add: ev)
  from p n e sat t1 blocked t2 x h l show ?thesis by blast
qed

end
